theory Spec2Isabelle
  imports Complex_Main "HOL-Library.Log_Nat"
begin

section \<open>Python values\<close>

text \<open>
  The two components verified here are \<^verbatim>\<open>VINGenerator\<close> with
  \<^verbatim>\<open>distribute_vins_across_vehicles\<close> (generate_vin_data.py) and
  \<^verbatim>\<open>BodyClassClassifier\<close> (body_class_classifier.py).
  Python integers are unbounded and modelled by \<^typ>\<open>int\<close>; \<open>%\<close> with a positive
  modulus is \<open>mod\<close> on \<^typ>\<open>int\<close> (the result is never negative).
  Exceptions are values of the type \<open>error\<close>.
\<close>

datatype error = IndexError | KeyError | ZeroDivisionError

subsection \<open>Floats\<close>

text \<open>
  A finite Python float is an IEEE 754 binary64 number and is represented by the
  rational it denotes. Every arithmetic operation of the source that produces a float
  is the exact operation followed by \<open>double\<close>, rounding to the nearest binary64
  number, ties to even (53 significant bits; below \<open>2\<^sup>-\<^sup>1\<^sup>0\<^sup>2\<^sup>2\<close> the spacing stays
  \<open>2\<^sup>-\<^sup>1\<^sup>0\<^sup>7\<^sup>4\<close>). The exponent range is not bounded above: the integers of this
  program (years, counts, indices) are far below \<open>2\<^sup>1\<^sup>0\<^sup>2\<^sup>4\<close>, where Python would raise
  OverflowError.
\<close>

type_synonym pyfloat = rat

definition round_half_even :: "rat \<Rightarrow> int" where
  "round_half_even x =
     (let f = \<lfloor>x\<rfloor>; d = x - of_int f
      in if d < 1/2 then f else if 1/2 < d then f + 1 else if even f then f else f + 1)"

definition binary_exponent :: "rat \<Rightarrow> int" where
  \<comment> \<open>the \<open>e\<close> with \<open>2\<^sup>e \<le> |x| < 2\<^sup>e\<^sup>+\<^sup>1\<close>, for \<open>x \<noteq> 0\<close>\<close>
  "binary_exponent x =
     (let a = \<bar>x\<bar>
      in if 1 \<le> a then bitlen \<lfloor>a\<rfloor> - 1
         else (let k = bitlen \<lfloor>1 / a\<rfloor> - 1
               in if a * 2 ^ nat k = 1 then - k else - k - 1))"

definition double :: "rat \<Rightarrow> pyfloat" where
  "double x =
     (if x = 0 then 0
      else let q = 2 powi (max (binary_exponent x) (- 1022) - 52)
           in of_int (round_half_even (x / q)) * q)"

definition float_of_int :: "int \<Rightarrow> pyfloat" where
  \<comment> \<open>the conversion Python applies to an int operand of a float operation\<close>
  "float_of_int n = double (of_int n)"

definition int_truediv :: "int \<Rightarrow> int \<Rightarrow> error + pyfloat" where
  \<comment> \<open>\<open>a / b\<close> on ints: the correctly rounded quotient\<close>
  "int_truediv a b =
     (if b = 0 then Inl ZeroDivisionError else Inr (double (of_int a / of_int b)))"

definition fmul :: "pyfloat \<Rightarrow> pyfloat \<Rightarrow> pyfloat" where
  "fmul x y = double (x * y)"

definition fadd :: "pyfloat \<Rightarrow> pyfloat \<Rightarrow> pyfloat" where
  "fadd x y = double (x + y)"

definition fsub :: "pyfloat \<Rightarrow> pyfloat \<Rightarrow> pyfloat" where
  "fsub x y = double (x - y)"

definition py_int :: "pyfloat \<Rightarrow> int" where
  \<comment> \<open>\<open>int(x)\<close> truncates towards zero\<close>
  "py_int x = (if 0 \<le> x then \<lfloor>x\<rfloor> else \<lceil>x\<rceil>)"

subsection \<open>Strings and lists\<close>

text \<open>
  A Python string is a sequence of code points. A character of the type \<open>char\<close>
  stands for the code point of its number, from 0 to 255 (ASCII and the Latin-1
  supplement); a string with a code point above 255 has no counterpart here.
  \<open>lower\<close>, \<open>upper\<close> and \<open>strip\<close> act on these 256 code points as Python's
  \<open>str\<close> methods do, with one exception noted at \<open>upper_char\<close>. Indexing follows
  Python: a negative index counts from the end and an index out of range raises
  IndexError.
\<close>

definition py_index :: "'a list \<Rightarrow> int \<Rightarrow> error + 'a" where
  "py_index xs i =
     (let k = (if i < 0 then i + int (length xs) else i)
      in if k < 0 \<or> int (length xs) \<le> k then Inl IndexError else Inr (xs ! nat k))"

definition digit_char :: "nat \<Rightarrow> char" where
  "digit_char d = ''0123456789'' ! d"

fun digits :: "nat \<Rightarrow> string" where
  "digits n = (if n < 10 then [digit_char n] else digits (n div 10) @ [digit_char (n mod 10)])"

declare digits.simps [simp del]

definition str_int :: "int \<Rightarrow> string" where
  \<comment> \<open>\<open>str(n)\<close> for an int\<close>
  "str_int n = (if n < 0 then CHR ''-'' # digits (nat (- n)) else digits (nat n))"

definition zfill :: "nat \<Rightarrow> string \<Rightarrow> string" where
  \<comment> \<open>\<open>s.zfill(width)\<close>: zeros go after a leading sign\<close>
  "zfill width s =
     (if width \<le> length s then s
      else case s of
             c # rest \<Rightarrow>
               if c = CHR ''+'' \<or> c = CHR ''-''
               then c # replicate (width - length s) CHR ''0'' @ rest
               else replicate (width - length s) CHR ''0'' @ s
           | [] \<Rightarrow> replicate width CHR ''0'')"

definition upper_letters :: string where
  \<comment> \<open>the code points below 256 that \<open>lower\<close> changes: A to Z, U+00C0 to U+00D6 and
      U+00D8 to U+00DE\<close>
  "upper_letters =
     ''ABCDEFGHIJKLMNOPQRSTUVWXYZ'' @
     [CHR 0xC0, CHR 0xC1, CHR 0xC2, CHR 0xC3, CHR 0xC4, CHR 0xC5, CHR 0xC6, CHR 0xC7,
      CHR 0xC8, CHR 0xC9, CHR 0xCA, CHR 0xCB, CHR 0xCC, CHR 0xCD, CHR 0xCE, CHR 0xCF,
      CHR 0xD0, CHR 0xD1, CHR 0xD2, CHR 0xD3, CHR 0xD4, CHR 0xD5, CHR 0xD6, CHR 0xD8,
      CHR 0xD9, CHR 0xDA, CHR 0xDB, CHR 0xDC, CHR 0xDD, CHR 0xDE]"

definition lower_letters :: string where
  \<comment> \<open>their lower-case forms, in the same order: a to z, U+00E0 to U+00F6 and U+00F8 to
      U+00FE\<close>
  "lower_letters =
     ''abcdefghijklmnopqrstuvwxyz'' @
     [CHR 0xE0, CHR 0xE1, CHR 0xE2, CHR 0xE3, CHR 0xE4, CHR 0xE5, CHR 0xE6, CHR 0xE7,
      CHR 0xE8, CHR 0xE9, CHR 0xEA, CHR 0xEB, CHR 0xEC, CHR 0xED, CHR 0xEE, CHR 0xEF,
      CHR 0xF0, CHR 0xF1, CHR 0xF2, CHR 0xF3, CHR 0xF4, CHR 0xF5, CHR 0xF6, CHR 0xF8,
      CHR 0xF9, CHR 0xFA, CHR 0xFB, CHR 0xFC, CHR 0xFD, CHR 0xFE]"

definition lower_char :: "char \<Rightarrow> char" where
  "lower_char c = (case map_of (zip upper_letters lower_letters) c of Some d \<Rightarrow> d | None \<Rightarrow> c)"

definition upper_char :: "char \<Rightarrow> string" where
  \<comment> \<open>\<open>upper\<close> of one code point: U+00DF becomes the two letters SS. The capitals of
      U+00B5 and U+00FF are U+039C and U+0178, above 255: these two stay as they are
      here\<close>
  "upper_char c =
     (if c = CHR 0xDF then ''SS''
      else case map_of (zip lower_letters upper_letters) c of Some d \<Rightarrow> [d] | None \<Rightarrow> [c])"

definition py_lower :: "string \<Rightarrow> string" where
  "py_lower s = map lower_char s"

definition py_upper :: "string \<Rightarrow> string" where
  "py_upper s = concat (map upper_char s)"

definition is_space :: "char \<Rightarrow> bool" where
  \<comment> \<open>the code points below 256 that \<open>str.strip()\<close> removes: tab, newline, vertical tab,
      form feed, carriage return, the four separators 0x1C to 0x1F, space, next line
      (U+0085) and no-break space (U+00A0)\<close>
  "is_space c =
     (c \<in> set [CHR 0x09, CHR 0x0A, CHR 0x0B, CHR 0x0C, CHR 0x0D, CHR 0x1C, CHR 0x1D,
                CHR 0x1E, CHR 0x1F, CHR 0x20, CHR 0x85, CHR 0xA0])"

definition py_strip :: "string \<Rightarrow> string" where
  "py_strip s = rev (dropWhile is_space (rev (dropWhile is_space s)))"

fun starts_with :: "string \<Rightarrow> string \<Rightarrow> bool" where
  \<comment> \<open>\<open>starts_with p s\<close>: \<open>p\<close> is a prefix of \<open>s\<close>\<close>
  "starts_with [] s = True"
| "starts_with (c # p) [] = False"
| "starts_with (c # p) (d # s) = (c = d \<and> starts_with p s)"

fun str_in :: "string \<Rightarrow> string \<Rightarrow> bool" where
  \<comment> \<open>\<open>str_in p s\<close> is Python's \<open>p in s\<close>: \<open>p\<close> occurs in \<open>s\<close> as a substring\<close>
  "str_in p [] = (p = [])"
| "str_in p (c # s) = (starts_with p (c # s) \<or> str_in p s)"

section \<open>The body class classifier\<close>

text \<open>
  The rule catalogues are the JSON documents the constructor loads. An object with fixed
  keys is a record, an array a list, and a dictionary iterated with \<open>items()\<close> the
  list of its entries in insertion order (its keys are distinct). A compiled regular
  expression enters through the one thing \<open>classify\<close> asks of it: whether
  \<open>pattern.search(model)\<close> finds a match. \<open>_compile_patterns\<close> keeps the catalogue's
  order of body classes and of patterns.
\<close>

record override =
  o_manufacturer :: string
  o_model :: string
  o_year_range :: "int list"
  o_body_class :: string

type_synonym regex = "string \<Rightarrow> bool"

record pattern_data =
  exact_matches :: "string list"
  regex_patterns :: "regex list"

record classifier =
  overrides :: "override list"
  patterns :: "(string \<times> pattern_data) list"
  manufacturer_defaults :: "(string \<times> (string \<times> string) list) list"

definition compiled_patterns :: "classifier \<Rightarrow> (string \<times> regex list) list" where
  "compiled_patterns c = map (\<lambda>(body_class, data). (body_class, regex_patterns data)) (patterns c)"

record stats =
  total :: int
  historical_override :: int
  exact_match :: int
  regex_match :: int
  manufacturer_default :: int
  fallback :: int
  by_body_class :: "(string \<times> int) list"

definition initial_stats :: stats where
  "initial_stats =
     \<lparr>total = 0, historical_override = 0, exact_match = 0, regex_match = 0,
      manufacturer_default = 0, fallback = 0, by_body_class = []\<rparr>"

definition in_year_range :: "int list \<Rightarrow> int \<Rightarrow> error + bool" where
  \<comment> \<open>\<open>year_range[0] <= year <= year_range[1]\<close>; the second bound is read only when the
      first comparison holds\<close>
  "in_year_range year_range year =
     (case py_index year_range 0 of
        Inl e \<Rightarrow> Inl e
      | Inr lo \<Rightarrow>
          if lo \<le> year
          then (case py_index year_range 1 of Inl e \<Rightarrow> Inl e | Inr hi \<Rightarrow> Inr (year \<le> hi))
          else Inr False)"

fun check_historical_override ::
  "override list \<Rightarrow> string \<Rightarrow> string \<Rightarrow> int \<Rightarrow> error + string option" where
  "check_historical_override [] manufacturer model year = Inr None"
| "check_historical_override (ov # overrides_list) manufacturer model year =
     (if py_lower (o_manufacturer ov) = py_lower manufacturer
         \<and> py_lower (o_model ov) = py_lower model
      then (case in_year_range (o_year_range ov) year of
              Inl e \<Rightarrow> Inl e
            | Inr inside \<Rightarrow>
                if inside then Inr (Some (o_body_class ov))
                else check_historical_override overrides_list manufacturer model year)
      else check_historical_override overrides_list manufacturer model year)"

fun check_exact_match :: "(string \<times> pattern_data) list \<Rightarrow> string \<Rightarrow> string option" where
  "check_exact_match [] model = None"
| "check_exact_match ((body_class, data) # patterns_data) model =
     (if list_ex (\<lambda>exact_model. py_lower model = py_lower exact_model) (exact_matches data)
      then Some body_class
      else check_exact_match patterns_data model)"

fun check_regex_match :: "(string \<times> regex list) list \<Rightarrow> string \<Rightarrow> string option" where
  "check_regex_match [] model = None"
| "check_regex_match ((body_class, pats) # compiled) model =
     (if list_ex (\<lambda>pattern. pattern model) pats
      then Some body_class
      else check_regex_match compiled model)"

fun partial_match :: "(string \<times> string) list \<Rightarrow> string \<Rightarrow> string option" where
  \<comment> \<open>the first entry whose key, lowercased, occurs in the lowercased model\<close>
  "partial_match [] model = None"
| "partial_match ((model_pattern, body_class) # mfr_defaults) model =
     (if str_in (py_lower model_pattern) (py_lower model) then Some body_class
      else partial_match mfr_defaults model)"

definition check_manufacturer_default :: "classifier \<Rightarrow> string \<Rightarrow> string \<Rightarrow> string option" where
  "check_manufacturer_default c manufacturer model =
     (let mfr_defaults = (case map_of (manufacturer_defaults c) manufacturer of
                            Some d \<Rightarrow> d | None \<Rightarrow> [])
      in case map_of mfr_defaults model of
           Some body_class \<Rightarrow> Some body_class
         | None \<Rightarrow> partial_match mfr_defaults model)"

definition any_word_in :: "string list \<Rightarrow> string \<Rightarrow> bool" where
  \<comment> \<open>\<open>any(word in model_lower for word in words)\<close>\<close>
  "any_word_in words model_lower = list_ex (\<lambda>word. str_in word model_lower) words"

definition fallback_classification :: "string \<Rightarrow> string \<Rightarrow> int \<Rightarrow> string" where
  "fallback_classification manufacturer model year =
     (let model_lower = py_lower model
      in if year < 1930
         then (if any_word_in [''roadster'', ''speedster'', ''racer''] model_lower
               then ''Roadster'' else ''Touring Car'')
         else if any_word_in [''truck'', ''pickup'', ''150'', ''250'', ''350''] model_lower
         then ''Pickup''
         else if any_word_in [''van'', ''caravan'', ''voyager''] model_lower then ''Van''
         else if any_word_in [''sport'', ''gt'', ''gto'', ''ss'', ''r/t''] model_lower
         then ''Sports Car''
         else if any_word_in [''wagon'', ''estate''] model_lower then ''Wagon''
         else ''Sedan'')"

fun increment_count :: "string \<Rightarrow> (string \<times> int) list \<Rightarrow> (string \<times> int) list" where
  \<comment> \<open>\<open>counts[key] += 1\<close> for a key that is present\<close>
  "increment_count key [] = []"
| "increment_count key ((k, n) # counts) =
     (if k = key then (k, n + 1) # counts else (k, n) # increment_count key counts)"

definition update_body_class_stats :: "stats \<Rightarrow> string \<Rightarrow> stats" where
  "update_body_class_stats st body_class =
     (let counts = (if body_class \<notin> set (map fst (by_body_class st))
                    then by_body_class st @ [(body_class, 0)]
                    else by_body_class st)
      in st\<lparr>by_body_class := increment_count body_class counts\<rparr>)"

definition found :: "string option \<Rightarrow> string option" where
  \<comment> \<open>the test \<open>if override_class:\<close> : None and the empty string are both false\<close>
  "found r = (case r of None \<Rightarrow> None | Some body_class \<Rightarrow> if body_class = [] then None else Some body_class)"

text \<open>
  \<open>classify\<close> takes the statistics and returns them updated, next to the pair it returns
  or the exception it raises; the total is counted before anything can raise.
\<close>

definition classify ::
  "classifier \<Rightarrow> string \<Rightarrow> string \<Rightarrow> int \<Rightarrow> stats \<Rightarrow> (error + (string \<times> string)) \<times> stats" where
  "classify c manufacturer0 model0 year st0 =
     (let st = st0\<lparr>total := total st0 + 1\<rparr>;
          manufacturer = py_strip manufacturer0;
          model = py_strip model0
      in case check_historical_override (overrides c) manufacturer model year of
           Inl e \<Rightarrow> (Inl e, st)
         | Inr override_result \<Rightarrow>
             (case found override_result of
                Some override_class \<Rightarrow>
                  (Inr (override_class, ''historical_override''),
                   update_body_class_stats
                     (st\<lparr>historical_override := historical_override st + 1\<rparr>) override_class)
              | None \<Rightarrow>
                  (case found (check_exact_match (patterns c) model) of
                     Some exact_class \<Rightarrow>
                       (Inr (exact_class, ''exact_match''),
                        update_body_class_stats (st\<lparr>exact_match := exact_match st + 1\<rparr>) exact_class)
                   | None \<Rightarrow>
                       (case found (check_regex_match (compiled_patterns c) model) of
                          Some regex_class \<Rightarrow>
                            (Inr (regex_class, ''regex_match''),
                             update_body_class_stats
                               (st\<lparr>regex_match := regex_match st + 1\<rparr>) regex_class)
                        | None \<Rightarrow>
                            (case found (check_manufacturer_default c manufacturer model) of
                               Some default_class' \<Rightarrow>
                                 (Inr (default_class', ''manufacturer_default''),
                                  update_body_class_stats
                                    (st\<lparr>manufacturer_default := manufacturer_default st + 1\<rparr>)
                                    default_class')
                             | None \<Rightarrow>
                                 (let fallback_class =
                                        fallback_classification manufacturer model year
                                  in (Inr (fallback_class, ''fallback''),
                                      update_body_class_stats
                                        (st\<lparr>fallback := fallback st + 1\<rparr>) fallback_class)))))))"

section \<open>The seeded generator\<close>

record VINGenerator =
  seed :: int
  state :: int

definition VINGenerator_init :: "int \<Rightarrow> VINGenerator" where
  "VINGenerator_init s = \<lparr>seed = s, state = s\<rparr>"

definition seeded_random :: "VINGenerator \<Rightarrow> pyfloat \<times> VINGenerator" where
  "seeded_random g =
     (let s = (state g * 1664525 + 1013904223) mod 4294967296
      in (double (of_int s / of_int 4294967296), g\<lparr>state := s\<rparr>))"

text \<open>
  The methods below take the generator and return it updated, next to their result, or
  the exception they raise.
\<close>

definition plants :: string where
  "plants = ''RFTDA''"

definition generate_pre_1981_vin ::
  "string \<Rightarrow> int \<Rightarrow> int \<Rightarrow> VINGenerator \<Rightarrow> error + (string \<times> VINGenerator)" where
  "generate_pre_1981_vin manufacturer year index g =
     (case py_index (str_int year) (- 1) of
        Inl e \<Rightarrow> Inl e
      | Inr year_code \<Rightarrow>
          let (r, g1) = seeded_random g
          in case py_index plants (py_int (fmul r (float_of_int (int (length plants))))) of
               Inl e \<Rightarrow> Inl e
             | Inr plant \<Rightarrow>
                 let serial = zfill 6 (str_int (100000 + index))
                 in Inr ([year_code] @ [plant] @ ''01C'' @ serial, g1))"

definition year_codes :: string where
  "year_codes = ''ABCDEFGHJKLMNPRSTVWXY123456789''"

definition generate_post_1981_vin :: "string \<Rightarrow> int \<Rightarrow> int \<Rightarrow> error + string" where
  "generate_post_1981_vin manufacturer year index =
     (let country = ''1'';
          mfr_code = py_upper (take 2 manufacturer);
          year_index = (year - 1980) mod int (length year_codes)
      in case py_index year_codes year_index of
           Inl e \<Rightarrow> Inl e
         | Inr year_code \<Rightarrow>
             let plant = ''F'';
                 serial = zfill 6 (str_int (100000 + index))
             in Inr (country @ mfr_code @ ''BP40E9'' @ [year_code] @ plant @ serial))"

definition generate_mileage :: "int \<Rightarrow> VINGenerator \<Rightarrow> int \<times> VINGenerator" where
  "generate_mileage year g =
     (let age = 2025 - year;
          (r1, g1) = seeded_random g;
          avg_miles_per_year = fadd (float_of_int 5000) (fmul r1 (float_of_int 7000));
          base_mileage = fmul (float_of_int age) avg_miles_per_year;
          (roll, g2) = seeded_random g1
      in if roll < double (20 / 100) then (py_int (fmul base_mileage (double (3 / 10))), g2)
         else if roll < double (70 / 100) then (py_int (fmul base_mileage (double (8 / 10))), g2)
         else if roll < double (95 / 100) then (py_int (fmul base_mileage (double (15 / 10))), g2)
         else (py_int (fmul base_mileage (double (25 / 10))), g2))"

record condition =
  rating :: int
  description :: string

definition generate_condition :: "VINGenerator \<Rightarrow> condition \<times> VINGenerator" where
  "generate_condition g =
     (let (roll, g1) = seeded_random g
      in if roll < double (5 / 100) then (\<lparr>rating = 5, description = ''Concours''\<rparr>, g1)
         else if roll < double (20 / 100) then (\<lparr>rating = 4, description = ''Excellent''\<rparr>, g1)
         else if roll < double (55 / 100) then (\<lparr>rating = 3, description = ''Good''\<rparr>, g1)
         else if roll < double (85 / 100) then (\<lparr>rating = 2, description = ''Fair''\<rparr>, g1)
         else (\<lparr>rating = 1, description = ''Project''\<rparr>, g1))"

definition states :: "(string \<times> int) list" where
  "states = [(''CA'', 15), (''TX'', 8), (''FL'', 7), (''AZ'', 5),
             (''OH'', 4), (''MI'', 4), (''NY'', 3), (''PA'', 3)]"

fun pick_state :: "(string \<times> int) list \<Rightarrow> pyfloat \<Rightarrow> string" where
  "pick_state [] roll = ''CA''"
| "pick_state ((code, weight) # rest) roll =
     (let roll' = fsub roll (float_of_int weight)
      in if roll' \<le> 0 then code else pick_state rest roll')"

definition generate_state :: "VINGenerator \<Rightarrow> string \<times> VINGenerator" where
  "generate_state g =
     (let total_weight = sum_list (map snd states);
          (r, g1) = seeded_random g;
          roll = fmul r (float_of_int total_weight)
      in (pick_state states roll, g1))"

definition pre_1970_colors :: "string list" where
  "pre_1970_colors =
     [''Wimbledon White'', ''Candy Apple Red'', ''Springtime Yellow'',
      ''Arcadian Blue'', ''Ivy Gold'', ''Silver Smoke Gray'']"

definition post_1970_colors :: "string list" where
  "post_1970_colors =
     [''Bright Red'', ''Black'', ''White'', ''Silver Metallic'',
      ''Dark Blue Metallic'', ''Green Metallic'']"

definition generate_color :: "int \<Rightarrow> VINGenerator \<Rightarrow> error + (string \<times> VINGenerator)" where
  "generate_color year g =
     (let colors = (if year < 1970 then pre_1970_colors else post_1970_colors);
          (r, g1) = seeded_random g
      in case py_index colors (py_int (fmul r (float_of_int (int (length colors))))) of
           Inl e \<Rightarrow> Inl e
         | Inr color \<Rightarrow> Inr (color, g1))"

definition all_options :: "string list" where
  "all_options =
     [''Power Steering'', ''Power Disc Brakes'', ''Air Conditioning'',
      ''GT Equipment Group'', ''Interior Decor Group'', ''Rally Pac Gauges'',
      ''AM/FM Radio'', ''Tinted Glass'']"

fun select_options ::
  "nat \<Rightarrow> string list \<Rightarrow> VINGenerator \<Rightarrow> error + (string list \<times> VINGenerator)" where
  \<comment> \<open>the loop of \<open>generate_options\<close>, with the number of rounds left\<close>
  "select_options 0 selected_options g = Inr (selected_options, g)"
| "select_options (Suc n) selected_options g =
     (let (r, g1) = seeded_random g
      in case py_index all_options (py_int (fmul r (float_of_int (int (length all_options))))) of
           Inl e \<Rightarrow> Inl e
         | Inr option \<Rightarrow>
             select_options n
               (if option \<in> set selected_options then selected_options
                else selected_options @ [option]) g1)"

definition generate_options ::
  "int \<Rightarrow> VINGenerator \<Rightarrow> error + (string list \<times> VINGenerator)" where
  "generate_options condition_rating g =
     (let (r, g1) = seeded_random g;
          option_count = py_int (fmul (fmul (float_of_int condition_rating) r) (float_of_int 3))
      in select_options (nat (min option_count (int (length all_options)))) [] g1)"

text \<open>
  In \<open>calculate_value\<close> the variable \<open>value\<close> starts as an int and becomes a float
  only when a mileage adjustment multiplies it.
\<close>

datatype number = IntVal int | FloatVal pyfloat

fun as_float :: "number \<Rightarrow> pyfloat" where
  "as_float (IntVal n) = float_of_int n"
| "as_float (FloatVal x) = x"

fun add_int :: "number \<Rightarrow> int \<Rightarrow> number" where
  "add_int (IntVal n) k = IntVal (n + k)"
| "add_int (FloatVal x) k = FloatVal (fadd x (float_of_int k))"

definition base_values :: "(int \<times> int) list" where
  "base_values = [(5, 100000), (4, 65000), (3, 40000), (2, 25000), (1, 15000)]"

definition calculate_value ::
  "int \<Rightarrow> int \<Rightarrow> string list \<Rightarrow> VINGenerator \<Rightarrow> error + (int \<times> VINGenerator)" where
  "calculate_value condition_rating mileage options g =
     (case map_of base_values condition_rating of
        None \<Rightarrow> Inl KeyError
      | Some base \<Rightarrow>
          let value0 = IntVal base;
              value1 = (if mileage < 50000 then FloatVal (fmul (as_float value0) (double (12 / 10)))
                        else if 150000 < mileage
                             then FloatVal (fmul (as_float value0) (double (8 / 10)))
                             else value0);
              value2 = add_int value1 (int (length options) * 2000);
              (r, g1) = seeded_random g;
              value3 = fmul (as_float value2) (fadd (double (9 / 10)) (fmul r (double (2 / 10))))
          in Inr (py_int value3, g1))"

text \<open>
  A vehicle record as \<open>generate_instance\<close> reads it, and the record it returns.
  \<open>last_service_date\<close> is a calendar day, counted in days (the proleptic Gregorian
  ordinal that \<open>strftime('%Y-%m-%d')\<close> renders); the clock reading
  \<open>datetime.now()\<close> enters as the argument \<open>today\<close>, the day of the call.
\<close>

record vehicle_identity =
  vehicle_id :: string
  manufacturer :: string
  model :: string
  year :: int
  body_class :: string

record vehicle = vehicle_identity +
  instance_count :: int

record SyntheticInstance = vehicle_identity +
  vin :: string
  condition_rating :: int
  condition_description :: string
  mileage :: int
  mileage_verified :: bool
  registered_state :: string
  registration_status :: string
  title_status :: string
  exterior_color :: string
  factory_options :: "string list"
  estimated_value :: int
  matching_numbers :: bool
  last_service_date :: int

definition generate_instance ::
  "int \<Rightarrow> vehicle \<Rightarrow> int \<Rightarrow> VINGenerator \<Rightarrow> error + (SyntheticInstance \<times> VINGenerator)" where
  "generate_instance today vehicle_data index g =
     (case (if year vehicle_data \<le> 1980
            then generate_pre_1981_vin (manufacturer vehicle_data) (year vehicle_data) index g
            else map_sum id (\<lambda>v. (v, g))
                   (generate_post_1981_vin (manufacturer vehicle_data) (year vehicle_data) index)) of
        Inl e \<Rightarrow> Inl e
      | Inr (vin', g1) \<Rightarrow>
          let (condition, g2) = generate_condition g1;
              (mileage', g3) = generate_mileage (year vehicle_data) g2;
              (state', g4) = generate_state g3
          in case generate_color (year vehicle_data) g4 of
               Inl e \<Rightarrow> Inl e
             | Inr (color, g5) \<Rightarrow>
                 (case generate_options (rating condition) g5 of
                    Inl e \<Rightarrow> Inl e
                  | Inr (options, g6) \<Rightarrow>
                      (case calculate_value (rating condition) mileage' options g6 of
                         Inl e \<Rightarrow> Inl e
                       | Inr (value, g7) \<Rightarrow>
                           let (r8, g8) = seeded_random g7;
                               days_ago = py_int (fmul r8 (float_of_int 180));
                               last_service = today - days_ago;
                               (r9, g9) = seeded_random g8;
                               (r10, g10) = seeded_random g9;
                               (r11, g11) = seeded_random g10;
                               (r12, g12) = seeded_random g11
                           in Inr (\<lparr>vehicle_id = vehicle_id vehicle_data,
                                    manufacturer = manufacturer vehicle_data,
                                    model = model vehicle_data,
                                    year = year vehicle_data,
                                    body_class = body_class vehicle_data,
                                    vin = vin',
                                    condition_rating = rating condition,
                                    condition_description = description condition,
                                    mileage = mileage',
                                    mileage_verified = (double (2 / 10) < r9),
                                    registered_state = state',
                                    registration_status =
                                      (if double (55 / 100) < r10 then ''Active'' else ''Historic''),
                                    title_status =
                                      (if double (1 / 10) < r11 then ''Clean'' else ''Rebuilt''),
                                    exterior_color = color,
                                    factory_options = options,
                                    estimated_value = value,
                                    matching_numbers = (double (4 / 10) < r12),
                                    last_service_date = last_service\<rparr>, g12))))"

section \<open>Distributing the target count\<close>

record allocation =
  vehicle :: vehicle
  vin_count :: int

definition min_vins_per_vehicle :: int where
  "min_vins_per_vehicle = 5"

fun proportional ::
  "int \<Rightarrow> int \<Rightarrow> vehicle list \<Rightarrow> error + allocation list" where
  \<comment> \<open>the first loop of \<open>distribute_vins_across_vehicles\<close>\<close>
  "proportional total_instances target_count [] = Inr []"
| "proportional total_instances target_count (v # vehicles) =
     (case int_truediv (instance_count v) total_instances of
        Inl e \<Rightarrow> Inl e
      | Inr proportion \<Rightarrow>
          let allocated_vins =
                max min_vins_per_vehicle (py_int (fmul (float_of_int target_count) proportion))
          in case proportional total_instances target_count vehicles of
               Inl e \<Rightarrow> Inl e
             | Inr distribution \<Rightarrow> Inr (\<lparr>vehicle = v, vin_count = allocated_vins\<rparr> # distribution))"

definition position :: "nat \<Rightarrow> allocation list \<Rightarrow> error + nat" where
  \<comment> \<open>\<open>i % len(distribution)\<close>\<close>
  "position i distribution =
     (if length distribution = 0 then Inl ZeroDivisionError else Inr (i mod length distribution))"

definition add_to :: "nat \<Rightarrow> int \<Rightarrow> allocation list \<Rightarrow> allocation list" where
  "add_to k d distribution =
     distribution[k := (distribution ! k)\<lparr>vin_count := vin_count (distribution ! k) + d\<rparr>]"

fun add_vins :: "nat list \<Rightarrow> allocation list \<Rightarrow> error + allocation list" where
  \<comment> \<open>\<open>for i in range(diff): distribution[i % len(distribution)]['vin_count'] += 1\<close>\<close>
  "add_vins [] distribution = Inr distribution"
| "add_vins (i # rest) distribution =
     (case position i distribution of
        Inl e \<Rightarrow> Inl e
      | Inr k \<Rightarrow> add_vins rest (add_to k 1 distribution))"

fun remove_vins :: "nat list \<Rightarrow> allocation list \<Rightarrow> error + allocation list" where
  \<comment> \<open>the loop that removes, from an entry above the minimum only\<close>
  "remove_vins [] distribution = Inr distribution"
| "remove_vins (i # rest) distribution =
     (case position i distribution of
        Inl e \<Rightarrow> Inl e
      | Inr k \<Rightarrow>
          if min_vins_per_vehicle < vin_count (distribution ! k)
          then remove_vins rest (add_to k (- 1) distribution)
          else remove_vins rest distribution)"

definition distribute_vins_across_vehicles ::
  "vehicle list \<Rightarrow> int \<Rightarrow> error + allocation list" where
  "distribute_vins_across_vehicles vehicles target_count =
     (let total_instances = sum_list (map instance_count vehicles)
      in case proportional total_instances target_count vehicles of
           Inl e \<Rightarrow> Inl e
         | Inr distribution \<Rightarrow>
             let current_total = sum_list (map vin_count distribution)
             in if current_total \<noteq> target_count
                then let sorted = sort_key (\<lambda>d. - instance_count (vehicle d)) distribution;
                         diff = target_count - current_total
                     in if 0 < diff then add_vins [0..<nat diff] sorted
                        else remove_vins [0..<nat \<bar>diff\<bar>] sorted
                else Inr distribution)"

text \<open>
  \<open>sort(key=..., reverse=True)\<close> is stable: entries with equal \<open>instance_count\<close> keep
  their order, as \<open>sort_key\<close> on the negated key does.
\<close>

section \<open>Notions used to state the properties\<close>

subsection \<open>Positions in the seeded sequence\<close>

definition lcg_step :: "int \<Rightarrow> int" where
  "lcg_step s = (s * 1664525 + 1013904223) mod 4294967296"

definition advance :: "nat \<Rightarrow> VINGenerator \<Rightarrow> VINGenerator" where
  \<comment> \<open>the generator after \<open>k\<close> further calls of \<open>_seeded_random\<close>\<close>
  "advance k g = ((\<lambda>h. snd (seeded_random h)) ^^ k) g"

definition nth_draw :: "VINGenerator \<Rightarrow> nat \<Rightarrow> pyfloat" where
  \<comment> \<open>the value of call number \<open>k\<close>, counted from 0, of the sequence that starts at \<open>g\<close>\<close>
  "nth_draw g k = fst (seeded_random (advance k g))"

definition vin_draws :: "vehicle \<Rightarrow> nat" where
  \<comment> \<open>values the VIN consumes: one (the plant letter) up to 1980, none after\<close>
  "vin_draws v = (if year v \<le> 1980 then 1 else 0)"

definition option_rounds :: "int \<Rightarrow> pyfloat \<Rightarrow> nat" where
  \<comment> \<open>rounds of the loop of \<open>generate_options\<close>, from the rating and the first value drawn\<close>
  "option_rounds c r =
     nat (min (py_int (fmul (fmul (float_of_int c) r) (float_of_int 3)))
              (int (length all_options)))"

text \<open>
  The order of draws as the specification words it, to be compared with
  \<open>generate_instance\<close>: the four flags are drawn right after the estimated value, and the
  service-date offset last.
\<close>

definition generate_instance_flags_first ::
  "int \<Rightarrow> vehicle \<Rightarrow> int \<Rightarrow> VINGenerator \<Rightarrow> error + (SyntheticInstance \<times> VINGenerator)" where
  "generate_instance_flags_first today vehicle_data index g =
     (case (if year vehicle_data \<le> 1980
            then generate_pre_1981_vin (manufacturer vehicle_data) (year vehicle_data) index g
            else map_sum id (\<lambda>v. (v, g))
                   (generate_post_1981_vin (manufacturer vehicle_data) (year vehicle_data) index)) of
        Inl e \<Rightarrow> Inl e
      | Inr (vin', g1) \<Rightarrow>
          let (condition, g2) = generate_condition g1;
              (mileage', g3) = generate_mileage (year vehicle_data) g2;
              (state', g4) = generate_state g3
          in case generate_color (year vehicle_data) g4 of
               Inl e \<Rightarrow> Inl e
             | Inr (color, g5) \<Rightarrow>
                 (case generate_options (rating condition) g5 of
                    Inl e \<Rightarrow> Inl e
                  | Inr (options, g6) \<Rightarrow>
                      (case calculate_value (rating condition) mileage' options g6 of
                         Inl e \<Rightarrow> Inl e
                       | Inr (value, g7) \<Rightarrow>
                           let (r8, g8) = seeded_random g7;
                               (r9, g9) = seeded_random g8;
                               (r10, g10) = seeded_random g9;
                               (r11, g11) = seeded_random g10;
                               (r12, g12) = seeded_random g11;
                               days_ago = py_int (fmul r12 (float_of_int 180));
                               last_service = today - days_ago
                           in Inr (\<lparr>vehicle_id = vehicle_id vehicle_data,
                                    manufacturer = manufacturer vehicle_data,
                                    model = model vehicle_data,
                                    year = year vehicle_data,
                                    body_class = body_class vehicle_data,
                                    vin = vin',
                                    condition_rating = rating condition,
                                    condition_description = description condition,
                                    mileage = mileage',
                                    mileage_verified = (double (2 / 10) < r8),
                                    registered_state = state',
                                    registration_status =
                                      (if double (55 / 100) < r9 then ''Active'' else ''Historic''),
                                    title_status =
                                      (if double (1 / 10) < r10 then ''Clean'' else ''Rebuilt''),
                                    exterior_color = color,
                                    factory_options = options,
                                    estimated_value = value,
                                    matching_numbers = (double (4 / 10) < r11),
                                    last_service_date = last_service\<rparr>, g12))))"

text \<open>
  The record \<open>generate_instance\<close> builds, given the results of the generators that can
  raise; \<open>g1\<close> is the generator after the VIN and \<open>n\<close> the number of option rounds.
\<close>

definition instance_at ::
  "int \<Rightarrow> vehicle \<Rightarrow> VINGenerator \<Rightarrow> nat \<Rightarrow> string \<Rightarrow> string \<Rightarrow> string list \<Rightarrow> int
     \<Rightarrow> SyntheticInstance" where
  "instance_at today v g1 n vn col os val =
     \<lparr>vehicle_id = vehicle_id v, manufacturer = manufacturer v, model = model v,
      year = year v, body_class = body_class v, vin = vn,
      condition_rating = rating (fst (generate_condition g1)),
      condition_description = description (fst (generate_condition g1)),
      mileage = fst (generate_mileage (year v) (advance 1 g1)),
      mileage_verified = (double (2 / 10) < nth_draw g1 (8 + n)),
      registered_state = fst (generate_state (advance 3 g1)),
      registration_status =
        (if double (55 / 100) < nth_draw g1 (9 + n) then ''Active'' else ''Historic''),
      title_status = (if double (1 / 10) < nth_draw g1 (10 + n) then ''Clean'' else ''Rebuilt''),
      exterior_color = col, factory_options = os, estimated_value = val,
      matching_numbers = (double (4 / 10) < nth_draw g1 (11 + n)),
      last_service_date = today - py_int (fmul (nth_draw g1 (7 + n)) (float_of_int 180))\<rparr>"

subsection \<open>Statistics\<close>









subsection \<open>Sample inputs\<close>

definition ford_f150 :: vehicle where
  "ford_f150 =
     \<lparr>vehicle_id = ''ford-f150-2020'', manufacturer = ''Ford'', model = ''F-150'', year = 2020,
      body_class = ''Pickup'', instance_count = 10\<rparr>"

definition ford_1980 :: vehicle where
  "ford_1980 =
     \<lparr>vehicle_id = ''ford-mustang-1980'', manufacturer = ''Ford'', model = ''Mustang'',
      year = 1980, body_class = ''Coupe'', instance_count = 3\<rparr>"

definition ford_1981 :: vehicle where
  "ford_1981 =
     \<lparr>vehicle_id = ''ford-mustang-1981'', manufacturer = ''Ford'', model = ''Mustang'',
      year = 1981, body_class = ''Coupe'', instance_count = 1\<rparr>"

definition single_letter_1981 :: vehicle where
  "single_letter_1981 =
     \<lparr>vehicle_id = ''x-one-1981'', manufacturer = ''X'', model = ''One'', year = 1981,
      body_class = ''Sedan'', instance_count = 1\<rparr>"

definition with_count :: "int \<Rightarrow> vehicle" where
  "with_count n = ford_1981\<lparr>instance_count := n\<rparr>"

definition ford_catalog :: classifier where
  "ford_catalog =
     \<lparr>overrides = [], patterns = [],
      manufacturer_defaults = [(''Ford'', [(''F-Series'', ''Pickup'')])]\<rparr>"



section \<open>Facts about the float model\<close>

lemma round_half_even_of_int: "round_half_even (of_int z) = z"
  by (simp add: round_half_even_def)

lemma bitlen_floor_bounds:
  fixes a :: rat
  assumes "1 \<le> a"
  shows "2 powi (bitlen \<lfloor>a\<rfloor> - 1) \<le> a" and "a < 2 powi (bitlen \<lfloor>a\<rfloor>)"
    and "1 \<le> bitlen \<lfloor>a\<rfloor>"
proof -
  let ?n = "\<lfloor>a\<rfloor>"
  have n: "0 < ?n" using assms by simp
  have b: "2 ^ nat (bitlen ?n - 1) \<le> ?n" "?n < 2 ^ nat (bitlen ?n)"
    using bitlen_bounds [OF n] by auto
  show pos: "1 \<le> bitlen ?n" using n by (simp add: bitlen_def floorlog_def)
  have "(2::rat) powi (bitlen ?n - 1) = 2 ^ nat (bitlen ?n - 1)"
    using pos by (simp add: power_int_def)
  also have "\<dots> = of_int (2 ^ nat (bitlen ?n - 1))" by simp
  also have "\<dots> \<le> of_int ?n" using b(1) by (simp only: of_int_le_iff)
  also have "\<dots> \<le> a" by simp
  finally show "2 powi (bitlen ?n - 1) \<le> a" .
  have "?n + 1 \<le> 2 ^ nat (bitlen ?n)" using b(2) by simp
  then have "(of_int (?n + 1) :: rat) \<le> of_int (2 ^ nat (bitlen ?n))"
    by (simp only: of_int_le_iff)
  moreover have "a < of_int (?n + 1)" by simp linarith
  ultimately have "a < of_int (2 ^ nat (bitlen ?n))" by linarith
  also have "\<dots> = 2 powi (bitlen ?n)" using pos by (simp add: power_int_def)
  finally show "a < 2 powi (bitlen ?n)" .
qed

lemma binary_exponent_bounds:
  assumes "x \<noteq> 0"
  shows "2 powi (binary_exponent x) \<le> \<bar>x\<bar>" and "\<bar>x\<bar> < 2 powi (binary_exponent x + 1)"
proof -
  let ?a = "\<bar>x\<bar>"
  have apos: "0 < ?a" using assms by simp
  show "2 powi (binary_exponent x) \<le> ?a"
  proof (cases "1 \<le> ?a")
    case True
    then show ?thesis
      using bitlen_floor_bounds(1) [OF True] by (simp add: binary_exponent_def)
  next
    case False
    then have y: "1 \<le> 1 / ?a" using apos by (simp add: field_simps)
    let ?k = "bitlen \<lfloor>1 / ?a\<rfloor> - 1"
    have k0: "0 \<le> ?k" using bitlen_floor_bounds(3) [OF y] by simp
    have up: "1 / ?a < 2 powi (?k + 1)" using bitlen_floor_bounds(2) [OF y] by simp
    show ?thesis
    proof (cases "?a * 2 ^ nat ?k = 1")
      case True
      then have "?a = 1 / 2 ^ nat ?k" by (simp add: field_simps)
      also have "\<dots> = 2 powi (- ?k)" using k0 by (simp add: power_int_def field_simps)
      finally have "2 powi (- ?k) \<le> ?a" by simp
      then show ?thesis using False True by (simp add: binary_exponent_def Let_def)
    next
      case neq: False
      have "2 powi (?k + 1) * ?a > 1" using up apos by (simp add: field_simps)
      then have "?a > 1 / 2 powi (?k + 1)" by (simp add: field_simps)
      then have "2 powi (- ?k - 1) \<le> ?a"
        by (simp add: power_int_minus_divide [symmetric] algebra_simps)
      then show ?thesis using False neq by (simp add: binary_exponent_def Let_def)
    qed
  qed
  show "?a < 2 powi (binary_exponent x + 1)"
  proof (cases "1 \<le> ?a")
    case True
    then show ?thesis
      using bitlen_floor_bounds(2) [OF True] by (simp add: binary_exponent_def)
  next
    case False
    then have y: "1 \<le> 1 / ?a" using apos by (simp add: field_simps)
    let ?k = "bitlen \<lfloor>1 / ?a\<rfloor> - 1"
    have k0: "0 \<le> ?k" using bitlen_floor_bounds(3) [OF y] by simp
    have lo: "2 powi ?k \<le> 1 / ?a" using bitlen_floor_bounds(1) [OF y] by simp
    have p: "(2::rat) powi ?k = 2 ^ nat ?k" using k0 by (simp add: power_int_def)
    have le1: "?a * 2 ^ nat ?k \<le> 1" using lo apos p by (simp add: field_simps)
    show ?thesis
    proof (cases "?a * 2 ^ nat ?k = 1")
      case True
      then have "?a = 1 / 2 ^ nat ?k" by (simp add: field_simps)
      also have "\<dots> = 2 powi (- ?k)" using k0 by (simp add: power_int_def field_simps)
      also have "\<dots> < 2 powi (- ?k + 1)" by (rule power_int_strict_increasing) simp_all
      finally show ?thesis using False True by (simp add: binary_exponent_def Let_def)
    next
      case neq: False
      then have "?a * 2 ^ nat ?k < 1" using le1 by simp
      then have "?a < 1 / 2 ^ nat ?k" by (simp add: field_simps)
      also have "\<dots> = 2 powi (- ?k)" using k0 by (simp add: power_int_def field_simps)
      finally show ?thesis using False neq by (simp add: binary_exponent_def Let_def)
    qed
  qed
qed

text \<open>
  A number \<open>m \<sqdot> 2\<^sup>j\<close> with \<open>|m| < 2\<^sup>5\<^sup>3\<close> is a binary64 number: rounding leaves it
  unchanged.
\<close>

lemma double_exact:
  assumes x: "x = of_int m * 2 powi j" and m: "\<bar>m\<bar> < 2 ^ 53" and j: "- 1074 \<le> j"
  shows "double x = x"
proof (cases "x = 0")
  case True
  then show ?thesis by (simp add: double_def)
next
  case False
  let ?e = "binary_exponent x"
  let ?p = "max ?e (- 1022) - 52"
  have "2 powi ?e \<le> \<bar>x\<bar>" by (rule binary_exponent_bounds(1) [OF False])
  also have "\<bar>x\<bar> = of_int \<bar>m\<bar> * 2 powi j" by (simp add: x abs_mult power_int_abs)
  also have "\<dots> < 2 ^ 53 * 2 powi j"
  proof -
    have "(of_int \<bar>m\<bar> :: rat) < of_int (2 ^ 53)" using m by (simp only: of_int_less_iff)
    then show ?thesis by simp
  qed
  also have "\<dots> = 2 powi (53 + j)" by (simp add: power_int_add)
  finally have lt: "(2::rat) powi ?e < 2 powi (53 + j)" .
  have "?e < 53 + j"
  proof (rule ccontr)
    assume "\<not> ?e < 53 + j"
    then have "(2::rat) powi (53 + j) \<le> 2 powi ?e"
      by (intro power_int_increasing) simp_all
    with lt show False by simp
  qed
  then have pj: "?p \<le> j" using j by simp
  then obtain d where d: "j = ?p + int d" by (metis zle_iff_zadd)
  have "x / 2 powi ?p = of_int m * (2 powi j / 2 powi ?p)" by (simp add: x)
  also have "2 powi j / 2 powi ?p = (2::rat) ^ d"
    by (simp add: d power_int_add)
  finally have "x / 2 powi ?p = of_int (m * 2 ^ d)" by simp
  then have "round_half_even (x / 2 powi ?p) = m * 2 ^ d"
    by (simp only: round_half_even_of_int)
  then have "double x = of_int (m * 2 ^ d) * 2 powi ?p"
    using False by (simp add: double_def Let_def)
  also have "\<dots> = of_int m * (2 ^ d * 2 powi ?p)" by simp
  also have "2 ^ d * 2 powi ?p = (2::rat) powi j" by (simp add: d power_int_add)
  finally show ?thesis by (simp add: x)
qed

lemma double_exact_div:
  assumes "\<bar>m\<bar> < 2 ^ 53" and "k \<le> 1074"
  shows "double (of_int m / 2 ^ k) = of_int m / 2 ^ k"
proof (rule double_exact [where m = m and j = "- int k"])
  show "(of_int m :: rat) / 2 ^ k = of_int m * 2 powi (- int k)"
    by (simp add: power_int_minus field_simps)
qed (use assms in simp_all)

section \<open>The linear congruential draw\<close>

lemma seeded_random_state:
  "state (snd (seeded_random g)) = (state g * 1664525 + 1013904223) mod 4294967296"
  by (simp add: seeded_random_def Let_def)

lemma seeded_random_value:
  "fst (seeded_random g) = of_int (state (snd (seeded_random g))) / 4294967296"
proof -
  let ?s = "(state g * 1664525 + 1013904223) mod 4294967296"
  have "0 \<le> ?s" "?s < 4294967296" by simp_all
  then have "\<bar>?s\<bar> < 2 ^ 53" by simp
  then have "double (of_int ?s / 2 ^ 32) = of_int ?s / 2 ^ 32"
    by (rule double_exact_div) simp
  then show ?thesis by (simp add: seeded_random_def Let_def)
qed

text \<open>
  Claim C5. For every generator state \<open>s\<close> (any integer, so in particular every
  non-negative one), one call of \<open>_seeded_random\<close> sets the state to
  \<open>(s * 1664525 + 1013904223) mod 2\<^sup>3\<^sup>2\<close> and returns the new state divided by
  \<open>2\<^sup>3\<^sup>2\<close>, exactly, a value in the half-open interval \<open>[0, 1)\<close>.
\<close>

theorem seeded_random_lcg:
  "state (snd (seeded_random g)) = (state g * 1664525 + 1013904223) mod 2 ^ 32
   \<and> fst (seeded_random g) = of_int (state (snd (seeded_random g))) / 2 ^ 32
   \<and> 0 \<le> fst (seeded_random g) \<and> fst (seeded_random g) < 1"
proof -
  let ?s = "state (snd (seeded_random g))"
  have s: "?s = (state g * 1664525 + 1013904223) mod 4294967296"
    by (rule seeded_random_state)
  have v: "fst (seeded_random g) = of_int ?s / 4294967296"
    by (rule seeded_random_value)
  have "0 \<le> ?s" "?s < 4294967296" by (simp_all add: s)
  then have "(0::rat) \<le> of_int ?s" "(of_int ?s :: rat) < 4294967296" by simp_all
  then have "(0::rat) \<le> of_int ?s / 4294967296" "(of_int ?s :: rat) / 4294967296 < 1"
    by simp_all
  then have "0 \<le> fst (seeded_random g)" "fst (seeded_random g) < 1"
    by (simp_all only: v)
  moreover have "state (snd (seeded_random g)) = (state g * 1664525 + 1013904223) mod 2 ^ 32"
    by (simp add: s)
  moreover have "fst (seeded_random g) = of_int (state (snd (seeded_random g))) / 2 ^ 32"
    by (simp add: v)
  ultimately show ?thesis by blast
qed


section \<open>Draws and positions in the sequence\<close>

lemma float_of_int_exact: "\<bar>n\<bar> < 2 ^ 53 \<Longrightarrow> float_of_int n = of_int n"
  using double_exact [of "of_int n" n 0] by (simp add: float_of_int_def)

lemma lcg_step_range: "0 \<le> lcg_step s" "lcg_step s < 4294967296"
  by (simp_all add: lcg_step_def)

lemma seeded_random_eq:
  "seeded_random g = (of_int (lcg_step (state g)) / 4294967296, g\<lparr>state := lcg_step (state g)\<rparr>)"
proof -
  have "fst (seeded_random g) = of_int (lcg_step (state g)) / 4294967296"
    using seeded_random_value [of g] seeded_random_state [of g] by (simp add: lcg_step_def)
  moreover have "snd (seeded_random g) = g\<lparr>state := lcg_step (state g)\<rparr>"
    by (simp add: seeded_random_def lcg_step_def Let_def)
  ultimately show ?thesis by (simp add: prod_eq_iff)
qed

lemma advance_0 [simp]: "advance 0 g = g"
  by (simp add: advance_def)

lemma advance_Suc: "advance (Suc k) g = snd (seeded_random (advance k g))"
  by (simp add: advance_def)

lemma advance_add: "advance a (advance b g) = advance (a + b) g"
  by (simp add: advance_def funpow_add)

lemma snd_seeded_random: "snd (seeded_random g) = advance 1 g"
  by (simp add: advance_def)

lemma fst_seeded_random: "fst (seeded_random g) = nth_draw g 0"
  by (simp add: nth_draw_def)

lemma nth_draw_advance: "nth_draw (advance a g) k = nth_draw g (k + a)"
  by (simp add: nth_draw_def advance_add)

lemma state_advance: "state (advance k g) = (lcg_step ^^ k) (state g)"
  by (induction k) (simp_all add: advance_Suc seeded_random_eq)

lemma seed_advance: "seed (advance k g) = seed g"
  by (induction k) (simp_all add: advance_Suc seeded_random_eq)

lemma nth_draw_eq: "nth_draw g k = of_int ((lcg_step ^^ Suc k) (state g)) / 4294967296"
  by (simp add: nth_draw_def seeded_random_eq state_advance)

lemma scaled_draw:
  assumes s: "0 \<le> s" "s < 4294967296" and n: "0 \<le> n" "n < 1048576"
  shows "py_int (fmul (of_int s / 4294967296) (float_of_int n)) = (s * n) div 4294967296"
proof -
  have fn: "float_of_int n = of_int n"
    using n by (intro float_of_int_exact) simp
  have "s * n \<le> 4294967296 * n" using s n by (intro mult_right_mono) simp_all
  also have "\<dots> < 4294967296 * 1048576" using n by simp
  finally have b: "s * n < 2 ^ 53" by simp
  have nn: "0 \<le> s * n" using s n by simp
  have "double (of_int (s * n) / 2 ^ 32) = of_int (s * n) / 2 ^ 32"
    using b nn by (intro double_exact_div) simp_all
  then have "fmul (of_int s / 4294967296) (float_of_int n) = of_int (s * n) / of_int 4294967296"
    by (simp add: fmul_def fn)
  moreover have "(0::rat) \<le> of_int (s * n) / of_int 4294967296"
  proof -
    have "(0::rat) \<le> of_int (s * n)" using nn by (simp only: of_int_0_le_iff)
    then show ?thesis by simp
  qed
  ultimately show ?thesis
    by (simp only: py_int_def if_True floor_divide_of_int_eq)
qed

lemma scaled_draw_range:
  fixes s n :: int
  assumes s: "0 \<le> s" "s < 4294967296" and n: "0 < n"
  shows "0 \<le> (s * n) div 4294967296" and "(s * n) div 4294967296 < n"
proof -
  show "0 \<le> (s * n) div 4294967296" using s n by (simp add: pos_imp_zdiv_nonneg_iff)
  have "s * n < 4294967296 * n" using s n by (intro mult_strict_right_mono) simp_all
  then show "(s * n) div 4294967296 < n"
    by (simp add: div_less_iff_less_mult mult.commute) 
qed

section \<open>The attribute generators return, and how far they advance\<close>

lemma py_index_in_range:
  "0 \<le> i \<Longrightarrow> i < int (length xs) \<Longrightarrow> py_index xs i = Inr (xs ! nat i)"
  by (simp add: py_index_def)

lemma py_index_last: "xs \<noteq> [] \<Longrightarrow> py_index xs (- 1) = Inr (last xs)"
  by (cases xs rule: rev_cases) (simp_all add: py_index_def nat_diff_distrib')

lemma digits_nonempty: "digits n \<noteq> []"
  by (subst digits.simps) simp

lemma str_int_nonempty: "str_int n \<noteq> []"
  by (simp add: str_int_def digits_nonempty)

lemma draw_index:
  assumes "0 < n" "n < 1048576" "int (length xs) = n"
  shows "py_index xs (py_int (fmul (fst (seeded_random g)) (float_of_int (int (length xs)))))
           = Inr (xs ! nat ((lcg_step (state g) * n) div 4294967296))"
proof -
  let ?s = "lcg_step (state g)"
  have r: "fst (seeded_random g) = of_int ?s / 4294967296" by (simp add: seeded_random_eq)
  have i: "py_int (fmul (of_int ?s / 4294967296) (float_of_int n)) = (?s * n) div 4294967296"
    using assms by (intro scaled_draw lcg_step_range) simp_all
  have "0 \<le> (?s * n) div 4294967296" "(?s * n) div 4294967296 < n"
    using assms by (intro scaled_draw_range lcg_step_range; simp)+
  then show ?thesis using assms(3) by (simp add: r i py_index_in_range)
qed

lemma generate_pre_1981_vin_eq:
  "generate_pre_1981_vin m y i g =
     Inr ([last (str_int y)] @ [plants ! nat ((lcg_step (state g) * 5) div 4294967296)] @ ''01C''
            @ zfill 6 (str_int (100000 + i)), advance 1 g)"
proof -
  have "py_index plants (py_int (fmul (fst (seeded_random g)) (float_of_int (int (length plants)))))
          = Inr (plants ! nat ((lcg_step (state g) * 5) div 4294967296))"
    by (rule draw_index) (simp_all add: plants_def)
  then show ?thesis
    by (simp add: generate_pre_1981_vin_def py_index_last str_int_nonempty case_prod_beta
        snd_seeded_random Let_def)
qed

lemma generate_post_1981_vin_eq:
  "generate_post_1981_vin m y i =
     Inr (''1'' @ py_upper (take 2 m) @ ''BP40E9'' @ [year_codes ! nat ((y - 1980) mod 30)] @ ''F''
            @ zfill 6 (str_int (100000 + i)))"
proof -
  have l: "int (length year_codes) = 30" by (simp add: year_codes_def)
  have "py_index year_codes ((y - 1980) mod 30) = Inr (year_codes ! nat ((y - 1980) mod 30))"
    by (rule py_index_in_range) (simp_all add: l)
  then show ?thesis by (simp add: generate_post_1981_vin_def l Let_def)
qed

lemma snd_generate_condition: "snd (generate_condition g) = advance 1 g"
  by (simp add: generate_condition_def case_prod_beta snd_seeded_random Let_def)

lemma rating_generate_condition:
  "rating (fst (generate_condition g)) \<in> {1, 2, 3, 4, 5}"
  by (simp add: generate_condition_def case_prod_beta Let_def)

lemma snd_generate_mileage: "snd (generate_mileage y g) = advance 2 g"
  by (simp add: generate_mileage_def case_prod_beta snd_seeded_random Let_def advance_add
      numeral_2_eq_2)

lemma snd_generate_state: "snd (generate_state g) = advance 1 g"
  by (simp add: generate_state_def case_prod_beta snd_seeded_random Let_def)

lemma generate_color_eq:
  "generate_color y g =
     Inr ((if y < 1970 then pre_1970_colors else post_1970_colors)
            ! nat ((lcg_step (state g) * 6) div 4294967296), advance 1 g)"
proof -
  let ?colors = "if y < 1970 then pre_1970_colors else post_1970_colors"
  have "py_index ?colors (py_int (fmul (fst (seeded_random g)) (float_of_int (int (length ?colors)))))
          = Inr (?colors ! nat ((lcg_step (state g) * 6) div 4294967296))"
    by (rule draw_index) (simp_all add: pre_1970_colors_def post_1970_colors_def)
  then show ?thesis
    by (simp add: generate_color_def case_prod_beta snd_seeded_random Let_def)
qed

lemma select_options_returns:
  "\<exists>os. select_options n sel g = Inr (os, advance n g)"
proof (induction n arbitrary: sel g)
  case 0
  then show ?case by simp
next
  case (Suc n)
  have i: "py_index all_options (py_int (fmul (fst (seeded_random g)) (float_of_int (int (length all_options)))))
          = Inr (all_options ! nat ((lcg_step (state g) * 8) div 4294967296))"
    by (rule draw_index) (simp_all add: all_options_def)
  have a: "advance n (advance (Suc 0) g) = advance (Suc n) g" by (simp add: advance_add)
  show ?case
    using Suc.IH [of _ "advance (Suc 0) g"]
    by (simp add: case_prod_beta i snd_seeded_random a)
qed

lemma generate_options_returns:
  "\<exists>os. generate_options c g = Inr (os, advance (Suc (option_rounds c (nth_draw g 0))) g)"
proof -
  let ?n = "option_rounds c (nth_draw g 0)"
  obtain os where "select_options ?n [] (advance 1 g) = Inr (os, advance ?n (advance 1 g))"
    using select_options_returns by blast
  then show ?thesis
    by (simp add: generate_options_def case_prod_beta snd_seeded_random fst_seeded_random
        option_rounds_def advance_add Let_def)
qed

lemma calculate_value_returns:
  assumes "c \<in> {1, 2, 3, 4, 5}"
  shows "\<exists>v. calculate_value c m os g = Inr (v, advance 1 g)"
proof -
  obtain b where "map_of base_values c = Some b"
    using assms by (auto simp: base_values_def)
  then show ?thesis
    by (simp add: calculate_value_def case_prod_beta snd_seeded_random Let_def)
qed

lemma generate_condition_split:
  "generate_condition g = (fst (generate_condition g), advance 1 g)"
  by (simp add: prod_eq_iff snd_generate_condition)

lemma generate_mileage_split:
  "generate_mileage y g = (fst (generate_mileage y g), advance 2 g)"
  by (simp add: prod_eq_iff snd_generate_mileage)

lemma generate_state_split:
  "generate_state g = (fst (generate_state g), advance 1 g)"
  by (simp add: prod_eq_iff snd_generate_state)

lemma seeded_random_split: "seeded_random g = (nth_draw g 0, advance 1 g)"
  by (simp add: prod_eq_iff snd_seeded_random fst_seeded_random)

lemma generate_instance_eq:
  fixes g1 :: VINGenerator and v :: vehicle
  defines "c \<equiv> fst (generate_condition g1)"
  defines "mi \<equiv> fst (generate_mileage (year v) (advance 1 g1))"
  assumes vn: "(if year v \<le> 1980
            then generate_pre_1981_vin (manufacturer v) (year v) i g
            else map_sum id (\<lambda>x. (x, g))
                   (generate_post_1981_vin (manufacturer v) (year v) i)) = Inr (vn, g1)"
    and col: "generate_color (year v) (advance 4 g1) = Inr (col, advance 5 g1)"
    and os: "generate_options (rating c) (advance 5 g1) = Inr (os, advance (6 + n) g1)"
    and val: "calculate_value (rating c) mi os (advance (6 + n) g1) = Inr (val, advance (7 + n) g1)"
  shows "generate_instance today v i g =
    Inr (\<lparr>vehicle_id = vehicle_id v, manufacturer = manufacturer v, model = model v,
          year = year v, body_class = body_class v, vin = vn,
          condition_rating = rating c, condition_description = description c,
          mileage = mi,
          mileage_verified = (double (2 / 10) < nth_draw g1 (8 + n)),
          registered_state = fst (generate_state (advance 3 g1)),
          registration_status =
            (if double (55 / 100) < nth_draw g1 (9 + n) then ''Active'' else ''Historic''),
          title_status = (if double (1 / 10) < nth_draw g1 (10 + n) then ''Clean'' else ''Rebuilt''),
          exterior_color = col, factory_options = os, estimated_value = val,
          matching_numbers = (double (4 / 10) < nth_draw g1 (11 + n)),
          last_service_date = today - py_int (fmul (nth_draw g1 (7 + n)) (float_of_int 180))\<rparr>,
         advance (12 + n) g1)"
proof -
  have c: "generate_condition g1 = (c, advance 1 g1)"
    unfolding c_def by (rule generate_condition_split)
  have m: "generate_mileage (year v) (advance 1 g1) = (mi, advance 3 g1)"
    unfolding mi_def by (subst generate_mileage_split) (simp add: advance_add)
  define st where "st = fst (generate_state (advance 3 g1))"
  have s: "generate_state (advance 3 g1) = (st, advance 4 g1)"
    unfolding st_def by (subst generate_state_split) (simp add: advance_add)
  have r8: "seeded_random (advance (7 + n) g1) = (nth_draw g1 (7 + n), advance (8 + n) g1)"
    by (subst seeded_random_split) (simp add: advance_add nth_draw_advance)
  have r9: "seeded_random (advance (8 + n) g1) = (nth_draw g1 (8 + n), advance (9 + n) g1)"
    by (subst seeded_random_split) (simp add: advance_add nth_draw_advance)
  have r10: "seeded_random (advance (9 + n) g1) = (nth_draw g1 (9 + n), advance (10 + n) g1)"
    by (subst seeded_random_split) (simp add: advance_add nth_draw_advance)
  have r11: "seeded_random (advance (10 + n) g1) = (nth_draw g1 (10 + n), advance (11 + n) g1)"
    by (subst seeded_random_split) (simp add: advance_add nth_draw_advance)
  have r12: "seeded_random (advance (11 + n) g1) = (nth_draw g1 (11 + n), advance (12 + n) g1)"
    by (subst seeded_random_split) (simp add: advance_add nth_draw_advance)
  show ?thesis
    unfolding generate_instance_def vn st_def [symmetric]
    by (simp only: sum.case prod.case Let_def c m s col os val r8 r9 r10 r11 r12)
qed


section \<open>One call of \<open>generate_instance\<close>\<close>

lemma generate_vin_returns:
  "\<exists>vn. (if year v \<le> 1980
            then generate_pre_1981_vin (manufacturer v) (year v) i g
            else map_sum id (\<lambda>x. (x, g))
                   (generate_post_1981_vin (manufacturer v) (year v) i))
          = Inr (vn, advance (vin_draws v) g)"
  by (simp add: vin_draws_def generate_pre_1981_vin_eq generate_post_1981_vin_eq)

lemma days_ago_range:
  "0 \<le> py_int (fmul (nth_draw g k) (float_of_int 180))"
  "py_int (fmul (nth_draw g k) (float_of_int 180)) \<le> 179"
proof -
  let ?s = "(lcg_step ^^ Suc k) (state g)"
  have r: "0 \<le> ?s" "?s < 4294967296" by (simp_all add: lcg_step_range)
  have e: "py_int (fmul (nth_draw g k) (float_of_int 180)) = (?s * 180) div 4294967296"
    unfolding nth_draw_eq by (rule scaled_draw [OF r]) simp_all
  have "0 \<le> (?s * 180) div 4294967296" "(?s * 180) div 4294967296 < 180"
    by (rule scaled_draw_range [OF r], simp)+
  then show "0 \<le> py_int (fmul (nth_draw g k) (float_of_int 180))"
    "py_int (fmul (nth_draw g k) (float_of_int 180)) \<le> 179"
    by (simp_all add: e)
qed

lemma generate_instance_form:
  fixes v :: vehicle and g :: VINGenerator
  defines "g1 \<equiv> advance (vin_draws v) g"
  defines "c \<equiv> fst (generate_condition g1)"
  defines "n \<equiv> option_rounds (rating c) (nth_draw g1 5)"
  shows "\<exists>vn col os val.
      (if year v \<le> 1980
       then generate_pre_1981_vin (manufacturer v) (year v) i g
       else map_sum id (\<lambda>x. (x, g)) (generate_post_1981_vin (manufacturer v) (year v) i))
        = Inr (vn, g1)
    \<and> generate_color (year v) (advance 4 g1) = Inr (col, advance 5 g1)
    \<and> generate_options (rating c) (advance 5 g1) = Inr (os, advance (6 + n) g1)
    \<and> calculate_value (rating c) (fst (generate_mileage (year v) (advance 1 g1))) os
          (advance (6 + n) g1) = Inr (val, advance (7 + n) g1)
    \<and> (\<forall>today. generate_instance today v i g
           = Inr (instance_at today v g1 n vn col os val, advance (12 + n) g1))"
proof -
  obtain vn where vn: "(if year v \<le> 1980
       then generate_pre_1981_vin (manufacturer v) (year v) i g
       else map_sum id (\<lambda>x. (x, g)) (generate_post_1981_vin (manufacturer v) (year v) i))
        = Inr (vn, g1)"
    unfolding g1_def using generate_vin_returns by blast
  define col where "col = (if year v < 1970 then pre_1970_colors else post_1970_colors)
               ! nat ((lcg_step (state (advance 4 g1)) * 6) div 4294967296)"
  have col: "generate_color (year v) (advance 4 g1) = Inr (col, advance 5 g1)"
    by (simp add: generate_color_eq advance_add col_def)
  obtain os where os: "generate_options (rating c) (advance 5 g1) = Inr (os, advance (6 + n) g1)"
    using generate_options_returns [of "rating c" "advance 5 g1"]
    by (auto simp: advance_add nth_draw_advance n_def add.commute)
  have "rating c \<in> {1, 2, 3, 4, 5}" unfolding c_def by (rule rating_generate_condition)
  then obtain val where val:
    "calculate_value (rating c) (fst (generate_mileage (year v) (advance 1 g1))) os
          (advance (6 + n) g1) = Inr (val, advance (7 + n) g1)"
    using calculate_value_returns [of "rating c" _ os "advance (6 + n) g1"]
    by (auto simp: advance_add)
  have "generate_instance today v i g
           = Inr (instance_at today v g1 n vn col os val, advance (12 + n) g1)" for today
    unfolding instance_at_def
    using generate_instance_eq [OF vn col os [unfolded c_def] val [unfolded c_def]]
    by (simp add: c_def)
  with vn col os val show ?thesis by blast
qed

lemma instance_at_today:
  "instance_at today v g1 n vn col os val
     = (instance_at 0 v g1 n vn col os val)
         \<lparr>last_service_date := today - py_int (fmul (nth_draw g1 (7 + n)) (float_of_int 180))\<rparr>"
  by (simp add: instance_at_def)

lemma generate_instance_clock:
  "\<exists>inst g' d. 0 \<le> d \<and> d \<le> 179
     \<and> (\<forall>today. generate_instance today v i g = Inr (inst\<lparr>last_service_date := today - d\<rparr>, g'))"
proof -
  obtain vn col os val g1 n where
    f: "\<And>today. generate_instance today v i g
           = Inr (instance_at today v g1 n vn col os val, advance (12 + n) g1)"
    using generate_instance_form [of v i g] by blast
  let ?d = "py_int (fmul (nth_draw g1 (7 + n)) (float_of_int 180))"
  have "0 \<le> ?d" "?d \<le> 179" by (rule days_ago_range)+
  moreover have "\<forall>today. generate_instance today v i g
      = Inr ((instance_at 0 v g1 n vn col os val)\<lparr>last_service_date := today - ?d\<rparr>,
             advance (12 + n) g1)"
    using f instance_at_today by metis
  ultimately show ?thesis by blast
qed

lemma generate_instance_days_differ:
  assumes "today1 \<noteq> today2"
  shows "generate_instance today1 v i g \<noteq> generate_instance today2 v i g"
proof -
  obtain inst g' d where
    f: "\<And>today. generate_instance today v i g = Inr (inst\<lparr>last_service_date := today - d\<rparr>, g')"
    using generate_instance_clock [of v i g] by blast
  have "last_service_date (inst\<lparr>last_service_date := today1 - d\<rparr>)
          \<noteq> last_service_date (inst\<lparr>last_service_date := today2 - d\<rparr>)"
    using assms by simp
  then have "inst\<lparr>last_service_date := today1 - d\<rparr> \<noteq> inst\<lparr>last_service_date := today2 - d\<rparr>"
    by metis
  then show ?thesis by (simp add: f)
qed

text \<open>
  Claim C1, as amended. Two generators constructed with the same seed, each invoked once
  with \<open>generate_instance\<close> on the same vehicle record and index, both return, and
  their records agree in every field other than \<open>last_service_date\<close>: that field is
  the day of the call minus one and the same offset \<open>d\<close> (between 0 and 179 days). The
  two results are identical exactly when both calls happen on the same day.
\<close>

theorem generate_instance_same_seed:
  "\<exists>inst g' d. 0 \<le> d \<and> d \<le> 179
     \<and> generate_instance today1 v i (VINGenerator_init s)
           = Inr (inst\<lparr>last_service_date := today1 - d\<rparr>, g')
     \<and> generate_instance today2 v i (VINGenerator_init s)
           = Inr (inst\<lparr>last_service_date := today2 - d\<rparr>, g')
     \<and> (generate_instance today1 v i (VINGenerator_init s)
           = generate_instance today2 v i (VINGenerator_init s)) = (today1 = today2)"
proof -
  obtain inst g' d where d: "0 \<le> d" "d \<le> 179" and
    f: "\<And>today. generate_instance today v i (VINGenerator_init s)
           = Inr (inst\<lparr>last_service_date := today - d\<rparr>, g')"
    using generate_instance_clock [of v i "VINGenerator_init s"] by blast
  have "(generate_instance today1 v i (VINGenerator_init s)
           = generate_instance today2 v i (VINGenerator_init s)) = (today1 = today2)"
    using generate_instance_days_differ [of today1 today2 v i "VINGenerator_init s"] by auto
  with d f show ?thesis by blast
qed

text \<open>
  The same seed, vehicle and index on two consecutive days: the two records differ.
\<close>

theorem generate_instance_clock_counterexample:
  "generate_instance 739000 ford_f150 3 (VINGenerator_init 42)
     \<noteq> generate_instance 739001 ford_f150 3 (VINGenerator_init 42)"
  by (rule generate_instance_days_differ) simp

lemma generate_instance_positions:
  "\<exists>inst g1 n.
      g1 = advance (vin_draws v) g
    \<and> n = option_rounds (condition_rating inst) (nth_draw g1 5)
    \<and> generate_instance today v i g = Inr (inst, advance (12 + n) g1)
    \<and> (if year v \<le> 1980
        then generate_pre_1981_vin (manufacturer v) (year v) i g = Inr (vin inst, g1)
        else generate_post_1981_vin (manufacturer v) (year v) i = Inr (vin inst))
    \<and> generate_condition g1
         = (\<lparr>rating = condition_rating inst, description = condition_description inst\<rparr>,
            advance 1 g1)
    \<and> generate_mileage (year v) (advance 1 g1) = (mileage inst, advance 3 g1)
    \<and> generate_state (advance 3 g1) = (registered_state inst, advance 4 g1)
    \<and> generate_color (year v) (advance 4 g1) = Inr (exterior_color inst, advance 5 g1)
    \<and> generate_options (condition_rating inst) (advance 5 g1)
         = Inr (factory_options inst, advance (6 + n) g1)
    \<and> calculate_value (condition_rating inst) (mileage inst) (factory_options inst)
          (advance (6 + n) g1) = Inr (estimated_value inst, advance (7 + n) g1)
    \<and> last_service_date inst = today - py_int (fmul (nth_draw g1 (7 + n)) (float_of_int 180))
    \<and> 0 \<le> today - last_service_date inst \<and> today - last_service_date inst \<le> 179
    \<and> mileage_verified inst = (double (2 / 10) < nth_draw g1 (8 + n))
    \<and> registration_status inst
         = (if double (55 / 100) < nth_draw g1 (9 + n) then ''Active'' else ''Historic'')
    \<and> title_status inst
         = (if double (1 / 10) < nth_draw g1 (10 + n) then ''Clean'' else ''Rebuilt'')
    \<and> matching_numbers inst = (double (4 / 10) < nth_draw g1 (11 + n))"
proof -
  define g1 where "g1 = advance (vin_draws v) g"
  define c where "c = fst (generate_condition g1)"
  define n where "n = option_rounds (rating c) (nth_draw g1 5)"
  obtain vn col os val where
    vn: "(if year v \<le> 1980
       then generate_pre_1981_vin (manufacturer v) (year v) i g
       else map_sum id (\<lambda>x. (x, g)) (generate_post_1981_vin (manufacturer v) (year v) i))
        = Inr (vn, g1)"
    and col: "generate_color (year v) (advance 4 g1) = Inr (col, advance 5 g1)"
    and os: "generate_options (rating c) (advance 5 g1) = Inr (os, advance (6 + n) g1)"
    and val: "calculate_value (rating c) (fst (generate_mileage (year v) (advance 1 g1))) os
          (advance (6 + n) g1) = Inr (val, advance (7 + n) g1)"
    and f: "\<And>today. generate_instance today v i g
           = Inr (instance_at today v g1 n vn col os val, advance (12 + n) g1)"
    using generate_instance_form [of v i g] unfolding g1_def c_def n_def by blast
  let ?inst = "instance_at today v g1 n vn col os val"
  have cr: "condition_rating ?inst = rating c" "condition_description ?inst = description c"
    by (simp_all add: instance_at_def c_def)
  have 1: "n = option_rounds (condition_rating ?inst) (nth_draw g1 5)"
    unfolding cr by (rule n_def)
  have 2: "if year v \<le> 1980
        then generate_pre_1981_vin (manufacturer v) (year v) i g = Inr (vin ?inst, g1)
        else generate_post_1981_vin (manufacturer v) (year v) i = Inr (vin ?inst)"
  proof (cases "year v \<le> 1980")
    case True
    then show ?thesis using vn by (simp add: instance_at_def)
  next
    case False
    then have "map_sum id (\<lambda>x. (x, g)) (generate_post_1981_vin (manufacturer v) (year v) i)
                 = Inr (vn, g1)"
      using vn by simp
    then have "generate_post_1981_vin (manufacturer v) (year v) i = Inr vn"
      by (cases "generate_post_1981_vin (manufacturer v) (year v) i") auto
    then show ?thesis using False by (simp add: instance_at_def)
  qed
  have 3: "generate_condition g1
         = (\<lparr>rating = condition_rating ?inst, description = condition_description ?inst\<rparr>,
            advance 1 g1)"
    by (subst generate_condition_split) (simp add: cr c_def)
  have 4: "generate_mileage (year v) (advance 1 g1) = (mileage ?inst, advance 3 g1)"
    by (subst generate_mileage_split) (simp add: instance_at_def advance_add)
  have 5: "generate_state (advance 3 g1) = (registered_state ?inst, advance 4 g1)"
    by (subst generate_state_split) (simp add: instance_at_def advance_add)
  have 6: "generate_color (year v) (advance 4 g1) = Inr (exterior_color ?inst, advance 5 g1)"
    using col by (simp add: instance_at_def)
  have 7: "generate_options (condition_rating ?inst) (advance 5 g1)
         = Inr (factory_options ?inst, advance (6 + n) g1)"
    using os by (simp add: instance_at_def c_def)
  have 8: "calculate_value (condition_rating ?inst) (mileage ?inst) (factory_options ?inst)
          (advance (6 + n) g1) = Inr (estimated_value ?inst, advance (7 + n) g1)"
    using val by (simp add: instance_at_def c_def)
  have 9: "last_service_date ?inst
             = today - py_int (fmul (nth_draw g1 (7 + n)) (float_of_int 180))"
    by (simp add: instance_at_def)
  have 10: "0 \<le> today - last_service_date ?inst" "today - last_service_date ?inst \<le> 179"
    using days_ago_range [of g1 "7 + n"] by (simp_all add: 9)
  have 11: "mileage_verified ?inst = (double (2 / 10) < nth_draw g1 (8 + n))"
    "registration_status ?inst
         = (if double (55 / 100) < nth_draw g1 (9 + n) then ''Active'' else ''Historic'')"
    "title_status ?inst
         = (if double (1 / 10) < nth_draw g1 (10 + n) then ''Clean'' else ''Rebuilt'')"
    "matching_numbers ?inst = (double (4 / 10) < nth_draw g1 (11 + n))"
    by (simp_all add: instance_at_def)
  show ?thesis
    apply (rule exI [of _ ?inst], rule exI [of _ g1], rule exI [of _ n])
    apply (intro conjI)
    apply (rule g1_def, rule 1, rule f, rule 2, rule 3, rule 4, rule 5, rule 6, rule 7, rule 8,
           rule 9, rule 10(1), rule 10(2), rule 11(1), rule 11(2), rule 11(3), rule 11(4))
    done
qed

text \<open>
  Claim C4, as amended. Within one \<open>generate_instance\<close> call the values of the seeded
  sequence are consumed in this order: for a model year up to 1980 the plant letter of the
  VIN first (no value otherwise), then the condition roll (1 value), the mileage (2), the
  registered state (1), the exterior colour (1), the factory options (1 and one per
  round, \<open>n\<close> rounds), the variance of the estimated value (1), then the service-date
  offset (0 to 179 days back from the day of the call), and only then the four flags
  \<open>mileage_verified\<close>, \<open>registration_status\<close>, \<open>title_status\<close> and
  \<open>matching_numbers\<close>, one value each; the call leaves the generator 12 + \<open>n\<close>
  values after the VIN.
\<close>

theorem generate_instance_draw_order:
  "\<exists>inst g1 n.
      g1 = advance (vin_draws v) g
    \<and> n = option_rounds (condition_rating inst) (nth_draw g1 5)
    \<and> generate_instance today v i g = Inr (inst, advance (12 + n) g1)
    \<and> (if year v \<le> 1980
        then generate_pre_1981_vin (manufacturer v) (year v) i g = Inr (vin inst, g1)
        else generate_post_1981_vin (manufacturer v) (year v) i = Inr (vin inst))
    \<and> generate_condition g1
         = (\<lparr>rating = condition_rating inst, description = condition_description inst\<rparr>,
            advance 1 g1)
    \<and> generate_mileage (year v) (advance 1 g1) = (mileage inst, advance 3 g1)
    \<and> generate_state (advance 3 g1) = (registered_state inst, advance 4 g1)
    \<and> generate_color (year v) (advance 4 g1) = Inr (exterior_color inst, advance 5 g1)
    \<and> generate_options (condition_rating inst) (advance 5 g1)
         = Inr (factory_options inst, advance (6 + n) g1)
    \<and> calculate_value (condition_rating inst) (mileage inst) (factory_options inst)
          (advance (6 + n) g1) = Inr (estimated_value inst, advance (7 + n) g1)
    \<and> last_service_date inst = today - py_int (fmul (nth_draw g1 (7 + n)) (float_of_int 180))
    \<and> 0 \<le> today - last_service_date inst \<and> today - last_service_date inst \<le> 179
    \<and> mileage_verified inst = (double (2 / 10) < nth_draw g1 (8 + n))
    \<and> registration_status inst
         = (if double (55 / 100) < nth_draw g1 (9 + n) then ''Active'' else ''Historic'')
    \<and> title_status inst
         = (if double (1 / 10) < nth_draw g1 (10 + n) then ''Clean'' else ''Rebuilt'')
    \<and> matching_numbers inst = (double (4 / 10) < nth_draw g1 (11 + n))"
  by (rule generate_instance_positions)


lemma flags_first_service_date:
  fixes v :: vehicle and g :: VINGenerator
  defines "g1 \<equiv> advance (vin_draws v) g"
  defines "n \<equiv> option_rounds (rating (fst (generate_condition g1))) (nth_draw g1 5)"
  shows "\<exists>inst. generate_instance_flags_first today v i g = Inr (inst, advance (12 + n) g1)
    \<and> last_service_date inst = today - py_int (fmul (nth_draw g1 (11 + n)) (float_of_int 180))"
proof -
  define c where "c = fst (generate_condition g1)"
  define mi where "mi = fst (generate_mileage (year v) (advance 1 g1))"
  define st where "st = fst (generate_state (advance 3 g1))"
  have n: "n = option_rounds (rating c) (nth_draw g1 5)" by (simp add: n_def c_def)
  obtain vn col os val where
    vn: "(if year v \<le> 1980
       then generate_pre_1981_vin (manufacturer v) (year v) i g
       else map_sum id (\<lambda>x. (x, g)) (generate_post_1981_vin (manufacturer v) (year v) i))
        = Inr (vn, g1)"
    and col: "generate_color (year v) (advance 4 g1) = Inr (col, advance 5 g1)"
    and os: "generate_options (rating c) (advance 5 g1) = Inr (os, advance (6 + n) g1)"
    and val: "calculate_value (rating c) mi os (advance (6 + n) g1) = Inr (val, advance (7 + n) g1)"
    using generate_instance_form [of v i g] unfolding g1_def c_def n_def mi_def by blast
  have cc: "generate_condition g1 = (c, advance 1 g1)"
    unfolding c_def by (rule generate_condition_split)
  have m: "generate_mileage (year v) (advance 1 g1) = (mi, advance 3 g1)"
    unfolding mi_def by (subst generate_mileage_split) (simp add: advance_add)
  have s: "generate_state (advance 3 g1) = (st, advance 4 g1)"
    unfolding st_def by (subst generate_state_split) (simp add: advance_add)
  have r: "seeded_random (advance (j + n) g1) = (nth_draw g1 (j + n), advance (Suc j + n) g1)" for j
    by (subst seeded_random_split) (simp add: advance_add nth_draw_advance)
  have r8: "seeded_random (advance (7 + n) g1) = (nth_draw g1 (7 + n), advance (8 + n) g1)"
    and r9: "seeded_random (advance (8 + n) g1) = (nth_draw g1 (8 + n), advance (9 + n) g1)"
    and r10: "seeded_random (advance (9 + n) g1) = (nth_draw g1 (9 + n), advance (10 + n) g1)"
    and r11: "seeded_random (advance (10 + n) g1) = (nth_draw g1 (10 + n), advance (11 + n) g1)"
    and r12: "seeded_random (advance (11 + n) g1) = (nth_draw g1 (11 + n), advance (12 + n) g1)"
    using r [of 7] r [of 8] r [of 9] r [of 10] r [of 11] by simp_all
  have "generate_instance_flags_first today v i g =
    Inr (\<lparr>vehicle_id = vehicle_id v, manufacturer = manufacturer v, model = model v,
          year = year v, body_class = body_class v, vin = vn,
          condition_rating = rating c, condition_description = description c,
          mileage = mi,
          mileage_verified = (double (2 / 10) < nth_draw g1 (7 + n)),
          registered_state = st,
          registration_status =
            (if double (55 / 100) < nth_draw g1 (8 + n) then ''Active'' else ''Historic''),
          title_status = (if double (1 / 10) < nth_draw g1 (9 + n) then ''Clean'' else ''Rebuilt''),
          exterior_color = col, factory_options = os, estimated_value = val,
          matching_numbers = (double (4 / 10) < nth_draw g1 (10 + n)),
          last_service_date = today - py_int (fmul (nth_draw g1 (11 + n)) (float_of_int 180))\<rparr>,
         advance (12 + n) g1)"
    unfolding generate_instance_flags_first_def vn
    by (simp only: sum.case prod.case Let_def cc m s col os val r8 r9 r10 r11 r12)
  then show ?thesis by simp
qed

lemma lcg_42: "(lcg_step ^^ 6) 42 = 110225632" "(lcg_step ^^ 8) 42 = 508781842"
  "(lcg_step ^^ 12) 42 = 2146095206" "lcg_step 42 = 1083814273"
  by code_simp+

lemma rating_42: "rating (fst (generate_condition (VINGenerator_init 42))) = 3"
  by code_simp

lemma rounds_42: "option_rounds 3 (110225632 / 4294967296) = 0"
  by code_simp

lemma days_ago_value:
  "py_int (fmul (nth_draw g k) (float_of_int 180)) = ((lcg_step ^^ Suc k) (state g) * 180) div 4294967296"
  unfolding nth_draw_eq by (rule scaled_draw) (simp_all add: lcg_step_range)

lemma ford_f150_rounds:
  "option_rounds (rating (fst (generate_condition (VINGenerator_init 42))))
     (nth_draw (VINGenerator_init 42) 5) = 0"
proof -
  have "nth_draw (VINGenerator_init 42) 5 = 110225632 / 4294967296"
    by (simp add: nth_draw_eq VINGenerator_init_def lcg_42 del: funpow.simps)
  then show ?thesis by (simp only: rating_42 rounds_42)
qed

lemma ford_f150_service_dates:
  "\<exists>a b. generate_instance 739000 ford_f150 3 (VINGenerator_init 42) = Inr a
       \<and> generate_instance_flags_first 739000 ford_f150 3 (VINGenerator_init 42) = Inr b
       \<and> last_service_date (fst a) = 738979 \<and> last_service_date (fst b) = 738911"
proof -
  let ?g = "VINGenerator_init 42"
  have k: "vin_draws ford_f150 = 0" by (simp add: vin_draws_def ford_f150_def)
  have st: "state ?g = 42" by (simp add: VINGenerator_init_def)
  obtain inst n where n: "n = option_rounds (condition_rating inst) (nth_draw ?g 5)"
    and i: "generate_instance 739000 ford_f150 3 ?g = Inr (inst, advance (12 + n) ?g)"
    and c: "generate_condition ?g
         = (\<lparr>rating = condition_rating inst, description = condition_description inst\<rparr>,
            advance 1 ?g)"
    and d: "last_service_date inst
              = 739000 - py_int (fmul (nth_draw ?g (7 + n)) (float_of_int 180))"
    using generate_instance_positions [of ford_f150 ?g 739000 3] unfolding k advance_0 by blast
  have "rating (fst (generate_condition ?g)) = condition_rating inst" by (simp add: c)
  then have n0: "n = 0" using ford_f150_rounds by (simp add: n)
  have a: "last_service_date inst = 738979"
    unfolding d n0 by (simp add: days_ago_value st lcg_42 del: funpow.simps)
  obtain inst' where
    i': "generate_instance_flags_first 739000 ford_f150 3 ?g
           = Inr (inst', advance (12 + 0) ?g)"
    and d': "last_service_date inst'
              = 739000 - py_int (fmul (nth_draw ?g (11 + 0)) (float_of_int 180))"
    using flags_first_service_date [of 739000 ford_f150 3 ?g]
    unfolding k advance_0 ford_f150_rounds by blast
  have b: "last_service_date inst' = 738911"
    unfolding d' by (simp add: days_ago_value st lcg_42 del: funpow.simps)
  show ?thesis using i i' a b by simp
qed

text \<open>
  With the flags drawn before the service-date offset, as the specification words the
  order, the record for seed 42 is not the one \<open>generate_instance\<close> returns: the
  service date is 21 days back (eighth value), not 89 (twelfth value).
\<close>

theorem flags_before_service_date_counterexample:
  "generate_instance 739000 ford_f150 3 (VINGenerator_init 42)
     \<noteq> generate_instance_flags_first 739000 ford_f150 3 (VINGenerator_init 42)"
  using ford_f150_service_dates by auto

section \<open>The two VIN formats\<close>

lemma digit_char_mem: "d < 10 \<Longrightarrow> digit_char d \<in> set ''0123456789''"
proof -
  assume "d < 10"
  then have "d < length ''0123456789''" by simp
  then show ?thesis unfolding digit_char_def by (rule nth_mem)
qed

lemma digits_set: "set (digits n) \<subseteq> set ''0123456789''"
proof (induction n rule: digits.induct)
  case (1 n)
  show ?case
  proof (cases "n < 10")
    case True
    then show ?thesis using digit_char_mem [of n] by (subst digits.simps) simp
  next
    case False
    have "digit_char (n mod 10) \<in> set ''0123456789''" by (rule digit_char_mem) simp
    then show ?thesis using False 1 by (subst digits.simps) simp
  qed
qed

lemma length_digits_le: "0 < k \<Longrightarrow> n < 10 ^ k \<Longrightarrow> length (digits n) \<le> k"
proof (induction k arbitrary: n)
  case 0
  then show ?case by simp
next
  case (Suc k)
  show ?case
  proof (cases "n < 10")
    case True
    then show ?thesis by (subst digits.simps) simp
  next
    case False
    then have k: "0 < k" using Suc.prems by (cases k) auto
    have "n div 10 < 10 ^ k" using Suc.prems by (simp add: less_mult_imp_div_less mult.commute)
    then have "length (digits (n div 10)) \<le> k" using Suc.IH k by blast
    then show ?thesis using False by (subst digits.simps) simp
  qed
qed

lemma serial_six:
  assumes "0 \<le> n" "n < 1000000"
  shows "length (zfill 6 (str_int n)) = 6"
    and "set (zfill 6 (str_int n)) \<subseteq> set ''0123456789''"
proof -
  let ?s = "digits (nat n)"
  have s: "str_int n = ?s" using assms by (simp add: str_int_def)
  have "nat n < 10 ^ 6" using assms by simp
  then have len: "length ?s \<le> 6" by (intro length_digits_le) simp_all
  obtain c rest where cr: "?s = c # rest"
    using digits_nonempty [of "nat n"] by (cases ?s) auto
  have "c \<in> set ''0123456789''" using digits_set [of "nat n"] cr by auto
  then have c: "c \<noteq> CHR ''+''" "c \<noteq> CHR ''-''" by auto
  have z: "zfill 6 ?s = (if 6 \<le> length ?s then ?s else replicate (6 - length ?s) CHR ''0'' @ ?s)"
    using c by (simp add: zfill_def cr)
  show "length (zfill 6 (str_int n)) = 6" using len by (simp add: s z)
  show "set (zfill 6 (str_int n)) \<subseteq> set ''0123456789''"
    using digits_set [of "nat n"] by (auto simp: s z)
qed

lemma plant_mem: "plants ! nat ((lcg_step s * 5) div 4294967296) \<in> set plants"
proof -
  have "0 \<le> (lcg_step s * 5) div 4294967296" "(lcg_step s * 5) div 4294967296 < 5"
    by (rule scaled_draw_range [OF lcg_step_range], simp)+
  then have "nat ((lcg_step s * 5) div 4294967296) < length plants"
    by (simp add: plants_def)
  then show ?thesis by (rule nth_mem)
qed

lemma last_str_int_1980: "last (str_int 1980) = CHR ''0''"
  by (simp add: str_int_def digits.simps digit_char_def)

lemma year_code_1981: "year_codes ! nat ((1981 - 1980) mod 30) = CHR ''B''"
  by (simp add: year_codes_def)

lemma vin_1980:
  assumes "year v = 1980"
  shows "\<exists>inst g' plant. generate_instance today v i g = Inr (inst, g')
           \<and> plant \<in> set plants
           \<and> vin inst = ''0'' @ [plant] @ ''01C'' @ zfill 6 (str_int (100000 + i))"
proof -
  obtain inst g1 n where i: "generate_instance today v i g = Inr (inst, advance (12 + n) g1)"
    and vn: "if year v \<le> 1980
        then generate_pre_1981_vin (manufacturer v) (year v) i g = Inr (vin inst, g1)
        else generate_post_1981_vin (manufacturer v) (year v) i = Inr (vin inst)"
    using generate_instance_positions [of v g today i] by blast
  have "generate_pre_1981_vin (manufacturer v) 1980 i g = Inr (vin inst, g1)"
    using vn assms by simp
  then have "vin inst = ''0'' @ [plants ! nat ((lcg_step (state g) * 5) div 4294967296)]
                @ ''01C'' @ zfill 6 (str_int (100000 + i))"
    by (simp add: generate_pre_1981_vin_eq last_str_int_1980)
  with i plant_mem [of "state g"] show ?thesis by blast
qed

lemma vin_1981:
  assumes "year v = 1981"
  shows "\<exists>inst g'. generate_instance today v i g = Inr (inst, g')
           \<and> vin inst = ''1'' @ py_upper (take 2 (manufacturer v)) @ ''BP40E9'' @ ''B'' @ ''F''
                          @ zfill 6 (str_int (100000 + i))"
proof -
  obtain inst g1 n where i: "generate_instance today v i g = Inr (inst, advance (12 + n) g1)"
    and vn: "if year v \<le> 1980
        then generate_pre_1981_vin (manufacturer v) (year v) i g = Inr (vin inst, g1)
        else generate_post_1981_vin (manufacturer v) (year v) i = Inr (vin inst)"
    using generate_instance_positions [of v g today i] by blast
  have "generate_post_1981_vin (manufacturer v) 1981 i = Inr (vin inst)"
    using vn assms by simp
  then have "vin inst = ''1'' @ py_upper (take 2 (manufacturer v)) @ ''BP40E9'' @ ''B'' @ ''F''
                          @ zfill 6 (str_int (100000 + i))"
    using year_code_1981 by (simp add: generate_post_1981_vin_eq)
  with i show ?thesis by blast
qed

text \<open>
  The era boundary for every vehicle, index and generator is in \<open>vin_1980\<close> and
  \<open>vin_1981\<close>: model year 1980 takes the pre-1981 branch and 1981 the post-1981
  branch. For the sample vehicles and seed 42 the two VINs are \<open>0F01C100000\<close>, of 11
  characters, and \<open>1FOBP40E9BF100000\<close>, of 17.
\<close>

lemma serial_100000: "zfill 6 (str_int (100000 + 0)) = ''100000''"
  by (simp add: zfill_def str_int_def digits.simps digit_char_def)

lemma upper_samples: "py_upper ''Fo'' = ''FO''" "py_upper ''X'' = ''X''"
  by (simp_all add: py_upper_def upper_char_def upper_letters_def lower_letters_def)

lemma vin_era_samples:
  "\<exists>a b. generate_instance 739000 ford_1980 0 (VINGenerator_init 42) = Inr a
       \<and> vin (fst a) = ''0F01C100000''
       \<and> generate_instance 739000 ford_1981 0 (VINGenerator_init 42) = Inr b
       \<and> vin (fst b) = ''1FOBP40E9BF100000''"
proof -
  let ?g = "VINGenerator_init 42"
  obtain inst g1 n where i: "generate_instance 739000 ford_1980 0 ?g = Inr (inst, advance (12 + n) g1)"
    and vn: "if year ford_1980 \<le> 1980
        then generate_pre_1981_vin (manufacturer ford_1980) (year ford_1980) 0 ?g = Inr (vin inst, g1)
        else generate_post_1981_vin (manufacturer ford_1980) (year ford_1980) 0 = Inr (vin inst)"
    using generate_instance_positions [of ford_1980 ?g 739000 0] by blast
  have y: "year ford_1980 = 1980" by (simp add: ford_1980_def)
  have "plants ! nat ((lcg_step (state ?g) * 5) div 4294967296) = CHR ''F''"
    by (simp add: VINGenerator_init_def lcg_42 plants_def)
  then have a: "vin inst = ''0F01C100000''"
    using vn serial_100000 by (simp add: y generate_pre_1981_vin_eq last_str_int_1980)
  obtain inst' g' where i': "generate_instance 739000 ford_1981 0 ?g = Inr (inst', g')"
    and vn': "vin inst' = ''1'' @ py_upper (take 2 (manufacturer ford_1981)) @ ''BP40E9'' @ ''B''
                 @ ''F'' @ zfill 6 (str_int (100000 + 0))"
    using vin_1981 [of ford_1981 739000 0 ?g] by (auto simp: ford_1981_def)
  have b: "vin inst' = ''1FOBP40E9BF100000''"
    unfolding vn' serial_100000 by (simp add: ford_1981_def upper_samples)
  show ?thesis using i i' a b by simp
qed

text \<open>
  Claim C7, evaluated on the code. A vehicle of model year 1981 whose manufacturer name
  is the single letter \<open>X\<close> takes the post-1981 branch, and its VIN for index 0 is
  \<open>1XBP40E9BF100000\<close>: 16 characters, not the 17 of the format, because
  \<open>manufacturer[:2]\<close> yields one character and nothing pads it.
\<close>

theorem vin_1981_single_letter:
  "\<exists>a. generate_instance 739000 single_letter_1981 0 (VINGenerator_init 42) = Inr a
       \<and> vin (fst a) = ''1XBP40E9BF100000'' \<and> length (vin (fst a)) = 16"
proof -
  obtain inst g' where i: "generate_instance 739000 single_letter_1981 0 (VINGenerator_init 42)
                             = Inr (inst, g')"
    and vn: "vin inst = ''1'' @ py_upper (take 2 (manufacturer single_letter_1981)) @ ''BP40E9''
                 @ ''B'' @ ''F'' @ zfill 6 (str_int (100000 + 0))"
    using vin_1981 [of single_letter_1981 739000 0 "VINGenerator_init 42"]
    by (auto simp: single_letter_1981_def)
  have "vin inst = ''1XBP40E9BF100000''"
    unfolding vn serial_100000 by (simp add: single_letter_1981_def upper_samples)
  then show ?thesis using i by simp
qed

text \<open>
  Claim C6, as amended. For every year (so for every year greater than 1980) the
  year-code character of the post-1981 VIN is drawn from a 30-symbol alphabet,
  \<open>ABCDEFGHJKLMNPRSTVWXY123456789\<close>, at index \<open>(year - 1980) mod 30\<close>.
\<close>

theorem post_1981_year_code:
  "length year_codes = 30
   \<and> generate_post_1981_vin m y i
       = Inr (''1'' @ py_upper (take 2 m) @ ''BP40E9'' @ [year_codes ! nat ((y - 1980) mod 30)]
                @ ''F'' @ zfill 6 (str_int (100000 + i)))"
  by (simp add: generate_post_1981_vin_eq) (simp add: year_codes_def)

text \<open>
  The alphabet does not have 31 symbols, and for 2011 the index \<open>(year - 1980) mod 31\<close>
  gives \<open>A\<close> where the VIN carries \<open>B\<close>.
\<close>

theorem year_code_31_counterexample:
  "length year_codes \<noteq> 31
   \<and> generate_post_1981_vin ''Ford'' 2011 0
       \<noteq> Inr (''1'' @ py_upper (take 2 ''Ford'') @ ''BP40E9''
                @ [year_codes ! nat ((2011 - 1980) mod 31)] @ ''F'' @ zfill 6 (str_int (100000 + 0)))"
  by (simp add: generate_post_1981_vin_eq) (simp add: year_codes_def)


section \<open>The allocation of the target count\<close>

lemma proportional_returns:
  assumes "tot \<noteq> 0"
  shows "\<exists>d. proportional tot target vs = Inr d \<and> map vehicle d = vs
             \<and> (\<forall>a\<in>set d. min_vins_per_vehicle \<le> vin_count a)"
proof (induction vs)
  case Nil
  then show ?case by simp
next
  case (Cons v vs)
  then obtain d where d: "proportional tot target vs = Inr d" "map vehicle d = vs"
    "\<forall>a\<in>set d. min_vins_per_vehicle \<le> vin_count a" by blast
  show ?case using assms d by (simp add: int_truediv_def Let_def)
qed

lemma sum_vin_count_add_to:
  "k < length d \<Longrightarrow>
     sum_list (map vin_count (add_to k x d)) = sum_list (map vin_count d) + x"
proof (induction d arbitrary: k)
  case Nil
  then show ?case by simp
next
  case (Cons a d)
  show ?case
  proof (cases k)
    case 0
    then show ?thesis by (simp add: add_to_def)
  next
    case (Suc j)
    then have "j < length d" using Cons.prems by simp
    then have "sum_list (map vin_count (add_to j x d)) = sum_list (map vin_count d) + x"
      by (rule Cons.IH)
    then show ?thesis using Suc by (simp add: add_to_def)
  qed
qed

lemma length_add_to [simp]: "length (add_to k x d) = length d"
  by (simp add: add_to_def)

lemma map_vehicle_add_to [simp]: "map vehicle (add_to k x d) = map vehicle d"
proof (cases "k < length d")
  case True
  then have "(map vehicle d)[k := vehicle (d ! k)] = map vehicle d"
    by (simp add: list_update_same_conv)
  then show ?thesis by (simp add: add_to_def map_update)
next
  case False
  then have "d[k := (d ! k)\<lparr>vin_count := vin_count (d ! k) + x\<rparr>] = d"
    by (intro list_update_beyond) simp
  then show ?thesis by (simp add: add_to_def)
qed

lemma min_add_to:
  assumes "\<forall>a\<in>set d. m \<le> vin_count a" "k < length d" "m \<le> vin_count (d ! k) + x"
  shows "\<forall>a\<in>set (add_to k x d). m \<le> vin_count a"
proof
  fix a
  assume "a \<in> set (add_to k x d)"
  then have "a \<in> insert ((d ! k)\<lparr>vin_count := vin_count (d ! k) + x\<rparr>) (set d)"
    unfolding add_to_def using set_update_subset_insert by fastforce
  then show "m \<le> vin_count a" using assms by auto
qed

lemma add_vins_returns:
  assumes "d \<noteq> []"
  shows "\<exists>d'. add_vins is d = Inr d' \<and> map vehicle d' = map vehicle d
           \<and> sum_list (map vin_count d') = sum_list (map vin_count d) + int (length is)
           \<and> ((\<forall>a\<in>set d. m \<le> vin_count a) \<longrightarrow> (\<forall>a\<in>set d'. m \<le> vin_count a))"
  using assms
proof (induction "is" arbitrary: d)
  case Nil
  then show ?case by simp
next
  case (Cons i "is")
  let ?k = "i mod length d"
  let ?e = "add_to ?k 1 d"
  have k: "?k < length d" using Cons.prems by simp
  have ne: "?e \<noteq> []" using Cons.prems by (metis length_add_to length_0_conv)
  obtain d' where d': "add_vins is ?e = Inr d'" "map vehicle d' = map vehicle ?e"
    "sum_list (map vin_count d') = sum_list (map vin_count ?e) + int (length is)"
    "(\<forall>a\<in>set ?e. m \<le> vin_count a) \<longrightarrow> (\<forall>a\<in>set d'. m \<le> vin_count a)"
    using Cons.IH [OF ne] by blast
  have p: "position i d = Inr ?k" using Cons.prems by (simp add: position_def)
  have s: "sum_list (map vin_count ?e) = sum_list (map vin_count d) + 1"
    by (rule sum_vin_count_add_to [OF k])
  have mn: "\<forall>a\<in>set ?e. m \<le> vin_count a" if a: "\<forall>a\<in>set d. m \<le> vin_count a"
  proof (rule min_add_to [OF a k])
    have "m \<le> vin_count (d ! ?k)" using a k by simp
    then show "m \<le> vin_count (d ! ?k) + 1" by simp
  qed
  have r: "add_vins (i # is) d = Inr d'" using d'(1) by (simp add: p)
  have v: "map vehicle d' = map vehicle d" using d'(2) by simp
  have t: "sum_list (map vin_count d') = sum_list (map vin_count d) + int (length (i # is))"
    using d'(3) s by simp
  have w: "(\<forall>a\<in>set d. m \<le> vin_count a) \<longrightarrow> (\<forall>a\<in>set d'. m \<le> vin_count a)"
    using mn d'(4) by blast
  from r v t w show ?case by blast
qed

lemma remove_vins_returns:
  assumes "d \<noteq> []"
  shows "\<exists>d'. remove_vins is d = Inr d' \<and> map vehicle d' = map vehicle d
           \<and> sum_list (map vin_count d) - int (length is) \<le> sum_list (map vin_count d')
           \<and> sum_list (map vin_count d') \<le> sum_list (map vin_count d)
           \<and> ((\<forall>a\<in>set d. min_vins_per_vehicle \<le> vin_count a)
                \<longrightarrow> (\<forall>a\<in>set d'. min_vins_per_vehicle \<le> vin_count a))"
  using assms
proof (induction "is" arbitrary: d)
  case Nil
  then show ?case by simp
next
  case (Cons i "is")
  let ?k = "i mod length d"
  let ?e = "if min_vins_per_vehicle < vin_count (d ! ?k) then add_to ?k (- 1) d else d"
  have k: "?k < length d" using Cons.prems by simp
  have ne: "?e \<noteq> []" using Cons.prems by (metis length_add_to length_0_conv)
  obtain d' where d': "remove_vins is ?e = Inr d'" "map vehicle d' = map vehicle ?e"
    "sum_list (map vin_count ?e) - int (length is) \<le> sum_list (map vin_count d')"
    "sum_list (map vin_count d') \<le> sum_list (map vin_count ?e)"
    "(\<forall>a\<in>set ?e. min_vins_per_vehicle \<le> vin_count a)
       \<longrightarrow> (\<forall>a\<in>set d'. min_vins_per_vehicle \<le> vin_count a)"
    using Cons.IH [OF ne] by blast
  have p: "position i d = Inr ?k" using Cons.prems by (simp add: position_def)
  have r: "remove_vins (i # is) d = remove_vins is ?e" by (simp add: p)
  have s: "sum_list (map vin_count d) - 1 \<le> sum_list (map vin_count ?e)"
    "sum_list (map vin_count ?e) \<le> sum_list (map vin_count d)"
    using sum_vin_count_add_to [OF k, of "- 1"] by auto
  have mn: "\<forall>a\<in>set ?e. min_vins_per_vehicle \<le> vin_count a"
    if a: "\<forall>a\<in>set d. min_vins_per_vehicle \<le> vin_count a"
  proof (cases "min_vins_per_vehicle < vin_count (d ! ?k)")
    case True
    then have "min_vins_per_vehicle \<le> vin_count (d ! ?k) + (- 1)" by simp
    then have "\<forall>a\<in>set (add_to ?k (- 1) d). min_vins_per_vehicle \<le> vin_count a"
      by (rule min_add_to [OF a k])
    then show ?thesis using True by simp
  next
    case False
    then show ?thesis using a by simp
  qed
  have v: "map vehicle d' = map vehicle d" using d'(2) by simp
  have r': "remove_vins (i # is) d = Inr d'" using d'(1) by (simp only: r)
  have lo: "sum_list (map vin_count d) - int (length (i # is)) \<le> sum_list (map vin_count d')"
    using d'(3) s(1) by simp
  have hi: "sum_list (map vin_count d') \<le> sum_list (map vin_count d)"
    using d'(4) s(2) by linarith
  have w: "(\<forall>a\<in>set d. min_vins_per_vehicle \<le> vin_count a)
             \<longrightarrow> (\<forall>a\<in>set d'. min_vins_per_vehicle \<le> vin_count a)"
    using mn d'(5) by blast
  from r' v lo hi w show ?case by blast
qed

lemma sum_list_insort_key:
  fixes g :: "'a \<Rightarrow> int" and f :: "'a \<Rightarrow> int"
  shows "sum_list (map g (insort_key f x xs)) = g x + sum_list (map g xs)"
  by (induction xs) simp_all

lemma sum_list_sort_key:
  fixes g :: "'a \<Rightarrow> int" and f :: "'a \<Rightarrow> int"
  shows "sum_list (map g (sort_key f xs)) = sum_list (map g xs)"
  by (induction xs) (simp_all add: sum_list_insort_key)

lemma sum_instance_count_pos:
  assumes "vs \<noteq> []" "\<forall>v\<in>set vs. 0 < instance_count v"
  shows "0 < sum_list (map instance_count vs)"
  using assms
proof (induction vs)
  case Nil
  then show ?case by simp
next
  case (Cons v vs)
  have "0 \<le> sum_list (map instance_count vs)"
    using Cons.prems(2) by (intro sum_list_nonneg) auto
  then show ?case using Cons.prems(2) by simp
qed

lemma map_vehicle_insort_key:
  fixes f :: "vehicle \<Rightarrow> int"
  shows "map vehicle (insort_key (\<lambda>d. f (vehicle d)) x xs)
           = insort_key f (vehicle x) (map vehicle xs)"
  by (induction xs) simp_all

lemma map_vehicle_sort_key:
  fixes f :: "vehicle \<Rightarrow> int"
  shows "map vehicle (sort_key (\<lambda>d. f (vehicle d)) xs) = sort_key f (map vehicle xs)"
  by (induction xs) (simp_all add: map_vehicle_insort_key)

lemma distribute_result:
  assumes ne: "vehicles \<noteq> []" and tot: "sum_list (map instance_count vehicles) \<noteq> 0"
  shows "\<exists>d d0. distribute_vins_across_vehicles vehicles target = Inr d
        \<and> proportional (sum_list (map instance_count vehicles)) target vehicles = Inr d0
        \<and> (map vehicle d = vehicles
             \<or> map vehicle d = sort_key (\<lambda>v. - instance_count v) vehicles)
        \<and> (\<forall>a\<in>set d. min_vins_per_vehicle \<le> vin_count a)
        \<and> target \<le> sum_list (map vin_count d)
        \<and> (sum_list (map vin_count d0) \<le> target \<longrightarrow> sum_list (map vin_count d) = target)"
proof -
  let ?tot = "sum_list (map instance_count vehicles)"
  obtain d0 where d0: "proportional ?tot target vehicles = Inr d0" "map vehicle d0 = vehicles"
    "\<forall>a\<in>set d0. min_vins_per_vehicle \<le> vin_count a"
    using proportional_returns [OF tot] by blast
  let ?cur = "sum_list (map vin_count d0)"
  let ?sorted = "sort_key (\<lambda>d. - instance_count (vehicle d)) d0"
  have len0: "length d0 = length vehicles" using d0(2) by (metis length_map)
  have sne: "?sorted \<noteq> []" using ne len0 by (metis length_sort length_0_conv)
  have ssum: "sum_list (map vin_count ?sorted) = ?cur" by (rule sum_list_sort_key)
  have smin: "\<forall>a\<in>set ?sorted. min_vins_per_vehicle \<le> vin_count a" using d0(3) by simp
  have sveh: "map vehicle ?sorted = sort_key (\<lambda>v. - instance_count v) vehicles"
    using map_vehicle_sort_key [of "\<lambda>v. - instance_count v" d0] by (simp add: d0(2))
  consider (eq) "?cur = target" | (less) "?cur < target" | (more) "target < ?cur" by linarith
  then show ?thesis
  proof cases
    case eq
    then have "distribute_vins_across_vehicles vehicles target = Inr d0"
      by (simp add: distribute_vins_across_vehicles_def d0(1) Let_def)
    then show ?thesis using d0 eq by auto
  next
    case less
    let ?is = "[0..<nat (target - ?cur)]"
    obtain d where d: "add_vins ?is ?sorted = Inr d" "map vehicle d = map vehicle ?sorted"
      "sum_list (map vin_count d) = sum_list (map vin_count ?sorted) + int (length ?is)"
      "(\<forall>a\<in>set ?sorted. min_vins_per_vehicle \<le> vin_count a)
         \<longrightarrow> (\<forall>a\<in>set d. min_vins_per_vehicle \<le> vin_count a)"
      using add_vins_returns [OF sne] by blast
    have r: "distribute_vins_across_vehicles vehicles target = Inr d"
      using less by (simp add: distribute_vins_across_vehicles_def d0(1) Let_def d(1))
    have s: "sum_list (map vin_count d) = target" using less by (simp add: d(3) ssum)
    have v: "map vehicle d = sort_key (\<lambda>v. - instance_count v) vehicles"
      using d(2) sveh by simp
    show ?thesis using r d0(1) v d(4) smin s by auto
  next
    case more
    let ?is = "[0..<nat \<bar>target - ?cur\<bar>]"
    obtain d where d: "remove_vins ?is ?sorted = Inr d" "map vehicle d = map vehicle ?sorted"
      "sum_list (map vin_count ?sorted) - int (length ?is) \<le> sum_list (map vin_count d)"
      "(\<forall>a\<in>set ?sorted. min_vins_per_vehicle \<le> vin_count a)
         \<longrightarrow> (\<forall>a\<in>set d. min_vins_per_vehicle \<le> vin_count a)"
      using remove_vins_returns [OF sne] by blast
    have r: "distribute_vins_across_vehicles vehicles target = Inr d"
      using more d(1) by (simp add: distribute_vins_across_vehicles_def d0(1) Let_def)
    have s: "target \<le> sum_list (map vin_count d)" using more d(3) by (simp add: ssum)
    have v: "map vehicle d = sort_key (\<lambda>v. - instance_count v) vehicles"
      using d(2) sveh by simp
    show ?thesis using r d0(1) v d(4) smin s more by auto
  qed
qed

text \<open>
  What both loops keep, for every non-empty vehicle list with positive counts and every
  positive target: the call returns, with one allocation per vehicle (in the order of
  the list, or sorted by falling \<open>instance_count\<close> when an adjustment was made), each
  at least the minimum of 5, and a sum that is at least the target; the adding loop
  reaches the target exactly.
\<close>

lemma distribute_allocations:
  assumes "vehicles \<noteq> []" and "\<forall>v\<in>set vehicles. 0 < instance_count v" and "0 < target"
  shows "\<exists>d d0. distribute_vins_across_vehicles vehicles target = Inr d
        \<and> proportional (sum_list (map instance_count vehicles)) target vehicles = Inr d0
        \<and> (map vehicle d = vehicles
             \<or> map vehicle d = sort_key (\<lambda>v. - instance_count v) vehicles)
        \<and> (\<forall>a\<in>set d. min_vins_per_vehicle \<le> vin_count a)
        \<and> target \<le> sum_list (map vin_count d)
        \<and> (sum_list (map vin_count d0) \<le> target \<longrightarrow> sum_list (map vin_count d) = target)"
proof (rule distribute_result)
  show "vehicles \<noteq> []" by (rule assms(1))
  show "sum_list (map instance_count vehicles) \<noteq> 0"
    using sum_instance_count_pos [OF assms(1) assms(2)] by simp
qed

lemma double_of_int: "\<bar>n\<bar> < 2 ^ 53 \<Longrightarrow> double (of_int n) = of_int n"
  using float_of_int_exact [of n] by (simp add: float_of_int_def)

lemma proportional_single:
  "proportional 1 3 [ford_1981] = Inr [\<lparr>vehicle = ford_1981, vin_count = 5\<rparr>]"
proof -
  have c: "instance_count ford_1981 = 1" by (simp add: ford_1981_def)
  have "double (of_int 1) = of_int 1" by (rule double_of_int) simp
  then have one: "double 1 = 1" by simp
  have "double (of_int 3) = of_int 3" by (rule double_of_int) simp
  then have three: "double 3 = 3" by simp
  show ?thesis
    by (simp add: c int_truediv_def float_of_int_def fmul_def one three py_int_def
        min_vins_per_vehicle_def)
qed

text \<open>
  One vehicle and a target of 3, which no allocation of at least 5 can meet: the minimum
  stands and the sum is 5.
\<close>

lemma distribute_below_minimum:
  "[ford_1981] \<noteq> [] \<and> 0 < instance_count ford_1981 \<and> (0::int) < 3
   \<and> distribute_vins_across_vehicles [ford_1981] 3 = Inr [\<lparr>vehicle = ford_1981, vin_count = 5\<rparr>]
   \<and> sum_list (map vin_count [\<lparr>vehicle = ford_1981, vin_count = 5\<rparr>]) \<noteq> 3"
proof -
  have c: "instance_count ford_1981 = 1" by (simp add: ford_1981_def)
  have "distribute_vins_across_vehicles [ford_1981] 3
          = Inr [\<lparr>vehicle = ford_1981, vin_count = 5\<rparr>]"
    by (simp add: distribute_vins_across_vehicles_def c proportional_single Let_def
        position_def min_vins_per_vehicle_def upt_rec del: proportional.simps)
  then show ?thesis by (simp add: c)
qed

lemma distribute_removal_stops_short:
  "map_sum id (map vin_count)
     (distribute_vins_across_vehicles
        [with_count 100, with_count 1, with_count 1, with_count 1] 25)
   = Inr [20, 5, 5, 5]"
  by code_simp

text \<open>
  Claim C2, evaluated on the code. Four vehicles with counts 100, 1, 1, 1 and a target
  of 25, which allocations of at least 5 each can meet (10, 5, 5, 5). The first loop
  allocates 24, 5, 5, 5; the removal loop has fourteen rounds and spends three out of
  every four on entries that are at the minimum, so it removes four and returns
  20, 5, 5, 5: the sum is 35, not the target.
\<close>

theorem distribute_feasible_target_missed:
  "map instance_count [with_count 100, with_count 1, with_count 1, with_count 1] = [100, 1, 1, 1]
   \<and> min_vins_per_vehicle * 4 \<le> 25
   \<and> map_sum id (map vin_count)
        (distribute_vins_across_vehicles
           [with_count 100, with_count 1, with_count 1, with_count 1] 25)
       = Inr [20, 5, 5, 5]
   \<and> sum_list [20, 5, 5, 5] = (35::int)"
  using distribute_removal_stops_short
  by (simp add: with_count_def min_vins_per_vehicle_def)

section \<open>The classifier\<close>











lemma classify_fallback:
  assumes "check_historical_override (overrides c) (py_strip m) (py_strip mo) y = Inr None"
    and "check_exact_match (patterns c) (py_strip mo) = None"
    and "check_regex_match (compiled_patterns c) (py_strip mo) = None"
    and "check_manufacturer_default c (py_strip m) (py_strip mo) = None"
  shows "fst (classify c m mo y st)
           = Inr (fallback_classification (py_strip m) (py_strip mo) y, ''fallback'')"
  using assms by (simp add: classify_def found_def Let_def)




























lemma strip_samples:
  "py_strip ''Ford'' = ''Ford''" "py_strip ''F-150'' = ''F-150''"
  "py_strip ''Stutz'' = ''Stutz''" "py_strip ''Bearcat Speedster'' = ''Bearcat Speedster''"
  "py_strip ''Unknown Co'' = ''Unknown Co''" "py_strip ''Thing'' = ''Thing''"
  "py_strip ''Mustang'' = ''Mustang''" "py_strip ''Model T'' = ''Model T''"
  "py_strip ''Tesla'' = ''Tesla''" "py_strip ''Model S'' = ''Model S''"
  by (simp_all add: py_strip_def is_space_def)

lemma lower_samples:
  "py_lower ''F-150'' = ''f-150''" "py_lower ''F-Series'' = ''f-series''"
  "py_lower ''Bearcat Speedster'' = ''bearcat speedster''" "py_lower ''Thing'' = ''thing''"
  "py_lower ''Ford'' = ''ford''" "py_lower ''Mustang'' = ''mustang''"
  "py_lower ''Model T'' = ''model t''" "py_lower ''Corvette'' = ''corvette''"
  "py_lower ''Tesla'' = ''tesla''" "py_lower ''Model S'' = ''model s''"
  by (simp_all add: py_lower_def lower_char_def upper_letters_def lower_letters_def)

lemma f150_no_default: "check_manufacturer_default ford_catalog ''Ford'' ''F-150'' = None"
  by (simp add: check_manufacturer_default_def ford_catalog_def lower_samples)

lemma f150_fallback: "fallback_classification ''Ford'' ''F-150'' 2020 = ''Pickup''"
  by (simp add: fallback_classification_def any_word_in_def lower_samples)

text \<open>
  Claim C3, evaluated on the code. With the manufacturer default \<open>F-Series\<close> \<open>\<rightarrow>\<close>
  \<open>Pickup\<close> under \<open>Ford\<close> and no other rule, the manufacturer-default tier finds
  nothing for the model \<open>F-150\<close>, since \<open>f-series\<close> does not occur in \<open>f-150\<close>;
  \<open>classify\<close> answers \<open>Pickup\<close> from the fallback keyword \<open>150\<close>, with match
  type \<open>fallback\<close>.
\<close>

theorem classify_f150:
  "check_manufacturer_default ford_catalog ''Ford'' ''F-150'' = None
   \<and> \<not> str_in (py_lower ''F-Series'') (py_lower ''F-150'')
   \<and> fst (classify ford_catalog ''Ford'' ''F-150'' 2020 initial_stats) = Inr (''Pickup'', ''fallback'')"
proof -
  have o: "check_historical_override (overrides ford_catalog) (py_strip ''Ford'')
             (py_strip ''F-150'') 2020 = Inr None"
    by (simp add: ford_catalog_def)
  have e: "check_exact_match (patterns ford_catalog) (py_strip ''F-150'') = None"
    by (simp add: ford_catalog_def)
  have r: "check_regex_match (compiled_patterns ford_catalog) (py_strip ''F-150'') = None"
    by (simp add: ford_catalog_def compiled_patterns_def)
  have d: "check_manufacturer_default ford_catalog (py_strip ''Ford'') (py_strip ''F-150'') = None"
    by (simp add: strip_samples f150_no_default)
  have "fst (classify ford_catalog ''Ford'' ''F-150'' 2020 initial_stats)
          = Inr (fallback_classification (py_strip ''Ford'') (py_strip ''F-150'') 2020, ''fallback'')"
    using o e r d by (rule classify_fallback)
  moreover have "\<not> str_in (py_lower ''F-Series'') (py_lower ''F-150'')"
    by (simp add: lower_samples)
  ultimately show ?thesis by (simp add: strip_samples f150_fallback f150_no_default)
qed













end
